theory Spec2Isabelle
  imports Complex_Main "HOL-Library.Sublist" "HOL-Library.Multiset" "HOL-Library.AList"
begin

section \<open>Python values and string primitives\<close>

text \<open>
  A Python \<open>str\<close> is a \<^typ>\<open>string\<close>; a \<^typ>\<open>char\<close> stands for the code point of
  the same number, so the model covers text whose code points are below 256. Python floats
  are modelled by \<^typ>\<open>real\<close>: rounding is not modelled.
\<close>

definition isspace :: "char \<Rightarrow> bool" where
  "isspace c = (let n = of_char c :: nat in
     (9 \<le> n \<and> n \<le> 13) \<or> (28 \<le> n \<and> n \<le> 32) \<or> n = 133 \<or> n = 160)"

definition lower_char :: "char \<Rightarrow> char" where
  "lower_char c = (let n = of_char c :: nat in
     if (65 \<le> n \<and> n \<le> 90) \<or> (192 \<le> n \<and> n \<le> 222 \<and> n \<noteq> 215)
     then char_of (n + 32) else c)"

text \<open>\<open>s.lower()\<close>\<close>

definition str_lower :: "string \<Rightarrow> string" where
  "str_lower s = map lower_char s"

text \<open>\<open>s.split()\<close>: the maximal runs of characters that are not whitespace.\<close>

fun split_aux :: "string \<Rightarrow> string \<Rightarrow> string list" where
  "split_aux cur [] = (if cur = [] then [] else [cur])"
| "split_aux cur (c # cs) =
     (if isspace c then (if cur = [] then split_aux [] cs else cur # split_aux [] cs)
      else split_aux (cur @ [c]) cs)"

definition str_split :: "string \<Rightarrow> string list" where
  "str_split s = split_aux [] s"

text \<open>\<open>sub in text\<close>: \<open>sub\<close> occurs in \<open>text\<close> as a contiguous substring.\<close>

fun str_contains :: "string \<Rightarrow> string \<Rightarrow> bool" where
  "str_contains sub [] = (sub = [])"
| "str_contains sub (c # cs) = (prefix sub (c # cs) \<or> str_contains sub cs)"

text \<open>
  \<open>text.find(sub, start)\<close> for \<open>start \<ge> 0\<close>: the lowest index \<open>i \<ge> start\<close> at which
  \<open>sub\<close> occurs, \<open>None\<close> for Python's \<open>-1\<close>.
\<close>

fun find_aux :: "string \<Rightarrow> string \<Rightarrow> nat \<Rightarrow> nat option" where
  "find_aux sub [] i = (if sub = [] then Some i else None)"
| "find_aux sub (c # cs) i = (if prefix sub (c # cs) then Some i else find_aux sub cs (Suc i))"

definition str_find :: "string \<Rightarrow> string \<Rightarrow> nat \<Rightarrow> nat option" where
  "str_find text sub start =
     (if length text < start then None else find_aux sub (drop start text) start)"

text \<open>\<open>xs[:limit]\<close> for a Python integer \<open>limit\<close>; a negative one counts from the end.\<close>

definition slice_to :: "int \<Rightarrow> 'a list \<Rightarrow> 'a list" where
  "slice_to limit xs =
     (if 0 \<le> limit then take (nat limit) xs else take (length xs - nat (- limit)) xs)"

section \<open>The hybrid search engine (utils/hybrid\_search.py)\<close>

record engine =
  semantic_weight :: real
  keyword_weight :: real
  proximity_distance :: nat

text \<open>\<open>HybridSearchEngine.__init__\<close> and the module's global instance.\<close>

definition HybridSearchEngine :: "real \<Rightarrow> real \<Rightarrow> engine" where
  "HybridSearchEngine sw kw =
     \<lparr>semantic_weight = sw, keyword_weight = kw, proximity_distance = 50\<rparr>"

definition hybrid_search_engine :: engine where
  "hybrid_search_engine = HybridSearchEngine 0.7 0.3"

subsection \<open>\_calculate\_proximity\_bonus\<close>

lemma find_aux_bounds:
  "find_aux sub t i = Some p \<Longrightarrow> i \<le> p \<and> p \<le> i + length t"
  by (induction t arbitrary: i) (fastforce split: if_splits)+

lemma str_find_bounds:
  "str_find text sub start = Some p \<Longrightarrow> start \<le> p \<and> p \<le> length text"
  unfolding str_find_def using find_aux_bounds [of sub "drop start text" start p]
  by (auto split: if_splits)

text \<open>The \<open>while True\<close> loop that collects every position of one word.\<close>

function positions_loop :: "string \<Rightarrow> string \<Rightarrow> nat \<Rightarrow> nat list \<Rightarrow> nat list" where
  "positions_loop text_lower word start word_positions =
     (case str_find text_lower word start of
        None \<Rightarrow> word_positions
      | Some pos \<Rightarrow> positions_loop text_lower word (pos + 1) (word_positions @ [pos]))"
  by pat_completeness auto
termination
proof (relation "measure (\<lambda>(t, w, start, acc). Suc (length t) - start)")
  show "wf (measure (\<lambda>(t, w, start, acc). Suc (length t) - start))" by simp
next
  fix text_lower word :: string and start pos :: nat and word_positions :: "nat list"
  assume "str_find text_lower word start = Some pos"
  then have "start \<le> pos \<and> pos \<le> length text_lower" by (rule str_find_bounds)
  then show "((text_lower, word, pos + 1, word_positions @ [pos]),
              (text_lower, word, start, word_positions))
             \<in> measure (\<lambda>(t, w, start, acc). Suc (length t) - start)"
    by auto
qed

declare positions_loop.simps [simp del]

text \<open>The first loop: the words with at least one position, in query order.\<close>

fun words_found_loop :: "string list \<Rightarrow> string \<Rightarrow> (string \<times> nat list) list" where
  "words_found_loop [] text_lower = []"
| "words_found_loop (word # ws) text_lower =
     (let word_positions = positions_loop text_lower word 0 []
      in if word_positions \<noteq> [] then (word, word_positions) # words_found_loop ws text_lower
         else words_found_loop ws text_lower)"

text \<open>
  The four nested loops, innermost first. The state is the pair
  \<open>(proximity_bonus, proximity_bonus_applied)\<close>; a \<open>break\<close> leaves the rest of the list
  unvisited.
\<close>

fun pos2_loop :: "nat \<Rightarrow> nat \<Rightarrow> nat list \<Rightarrow> real \<times> bool \<Rightarrow> real \<times> bool" where
  "pos2_loop d pos1 [] st = st"
| "pos2_loop d pos1 (pos2 # ps) st =
     (if \<bar>int pos1 - int pos2\<bar> \<le> int d then (0.3, True) else pos2_loop d pos1 ps st)"

fun pos1_loop :: "nat \<Rightarrow> nat list \<Rightarrow> nat list \<Rightarrow> real \<times> bool \<Rightarrow> real \<times> bool" where
  "pos1_loop d [] positions2 st = st"
| "pos1_loop d (pos1 # ps) positions2 st =
     (let st' = pos2_loop d pos1 positions2 st
      in if snd st' then st' else pos1_loop d ps positions2 st')"

fun j_loop :: "nat \<Rightarrow> nat \<Rightarrow> nat list \<Rightarrow> (nat \<times> string \<times> nat list) list
    \<Rightarrow> real \<times> bool \<Rightarrow> real \<times> bool" where
  "j_loop d i positions1 [] st = st"
| "j_loop d i positions1 ((j, word2, positions2) # rest) st =
     (let st' = (if i \<noteq> j \<and> \<not> snd st then pos1_loop d positions1 positions2 st else st)
      in if snd st' then st' else j_loop d i positions1 rest st')"

fun i_loop :: "nat \<Rightarrow> (nat \<times> string \<times> nat list) list \<Rightarrow> (nat \<times> string \<times> nat list) list
    \<Rightarrow> real \<times> bool \<Rightarrow> real \<times> bool" where
  "i_loop d all_found [] st = st"
| "i_loop d all_found ((i, word1, positions1) # rest) st =
     i_loop d all_found rest (j_loop d i positions1 all_found st)"

definition calculate_proximity_bonus :: "engine \<Rightarrow> string list \<Rightarrow> string \<Rightarrow> real" where
  "calculate_proximity_bonus self query_words text_lower =
     (let words_found = words_found_loop query_words text_lower
      in if 2 \<le> length words_found
         then fst (i_loop (proximity_distance self) (enumerate 0 words_found)
                     (enumerate 0 words_found) (0, False))
         else 0)"

subsection \<open>calculate\_keyword\_score\<close>

text \<open>The loop over the query words; the state is \<open>(matched_words, keyword_score)\<close>.\<close>

fun match_loop :: "string list \<Rightarrow> string \<Rightarrow> nat \<times> real \<Rightarrow> nat \<times> real" where
  "match_loop [] text_lower st = st"
| "match_loop (word # ws) text_lower (matched_words, keyword_score) =
     (if str_contains word text_lower
      then match_loop ws text_lower (matched_words + 1, keyword_score + 1)
      else match_loop ws text_lower (matched_words, keyword_score))"

text \<open>The bonus added after the loop (0 when none is added).\<close>

definition phrase_bonus :: "engine \<Rightarrow> string list \<Rightarrow> string \<Rightarrow> string \<Rightarrow> nat \<Rightarrow> real" where
  "phrase_bonus self query_words query_lower text_lower matched_words =
     (if 1 < length query_words then
        (if str_contains query_lower text_lower then 0.5
         else if 2 \<le> matched_words
              then calculate_proximity_bonus self query_words text_lower
              else 0)
      else 0)"

definition calculate_keyword_score :: "engine \<Rightarrow> string \<Rightarrow> string \<Rightarrow> real" where
  "calculate_keyword_score self query_text document_text =
     (let query_words = str_split (str_lower query_text);
          query_lower = str_lower query_text;
          text_lower = str_lower document_text
      in if query_words = [] then 0
         else (let (matched_words, keyword_score) = match_loop query_words text_lower (0, 0);
                   keyword_score = keyword_score
                     + phrase_bonus self query_words query_lower text_lower matched_words
               in keyword_score / real (length query_words)))"

subsection \<open>calculate\_hybrid\_score\<close>

definition calculate_hybrid_score :: "engine \<Rightarrow> real \<Rightarrow> real \<Rightarrow> nat \<Rightarrow> nat \<Rightarrow> real" where
  "calculate_hybrid_score self semantic_score keyword_score matched_words total_words =
     (if matched_words = total_words
      then (0.6 * semantic_score) + (0.4 * keyword_score)
      else (semantic_weight self * semantic_score) + (keyword_weight self * keyword_score))"

subsection \<open>Search results as dictionaries\<close>

text \<open>
  A result is a \<open>Dict[str, Any]\<close>: an association list from keys to dynamically typed
  values, in insertion order. Reading a value at the wrong type raises, as in Python.
\<close>

datatype pyval = PyNone | PyStr string | PyFloat real | PyInt int
  | PyDict "(string \<times> pyval) list"

type_synonym pydict = "(string \<times> pyval) list"

datatype error = AttributeError | TypeError | BackendError string

text \<open>\<open>d.get(key, default)\<close>\<close>

definition dict_get :: "pydict \<Rightarrow> string \<Rightarrow> pyval \<Rightarrow> pyval" where
  "dict_get d key dflt = (case map_of d key of None \<Rightarrow> dflt | Some v \<Rightarrow> v)"

text \<open>The number a value denotes in float arithmetic; \<open>None\<close> where \<open>0.6 * v\<close> is a TypeError.\<close>

fun as_number :: "pyval \<Rightarrow> real option" where
  "as_number (PyFloat x) = Some x"
| "as_number (PyInt n) = Some (of_int n)"
| "as_number _ = None"

fun is_str :: "pyval \<Rightarrow> bool" where
  "is_str (PyStr t) = True"
| "is_str _ = False"

text \<open>
  A hit as \<open>QdrantVectorClient.search\<close> builds it: the text (when present) is a \<open>str\<close>, the
  score (when present) a number.
\<close>

definition well_typed :: "pydict \<Rightarrow> bool" where
  "well_typed result =
     (is_str (dict_get result ''text'' (PyStr [])) \<and>
      as_number (dict_get result ''score'' (PyFloat 0)) \<noteq> None)"

text \<open>The sort key \<open>lambda x: x['score']\<close>; every entry it is applied to holds a float there.\<close>

definition score_key :: "pydict \<Rightarrow> real" where
  "score_key x = (case map_of x ''score'' of Some v \<Rightarrow> (case as_number v of Some s \<Rightarrow> s | None \<Rightarrow> 0)
                  | None \<Rightarrow> 0)"

text \<open>
  \<open>xs.sort(key=key, reverse=True)\<close>: Python's sort is stable also when reversed, so it is
  the stable ascending sort by the negated key.
\<close>

definition sort_desc :: "('a \<Rightarrow> real) \<Rightarrow> 'a list \<Rightarrow> 'a list" where
  "sort_desc key xs = sort_key (\<lambda>x. - key x) xs"

subsection \<open>rerank\_results\<close>

text \<open>
  The body of the loop over the semantic results. \<open>document_text.lower()\<close> raises
  AttributeError unless the text is a \<open>str\<close>; the arithmetic of the hybrid score raises
  TypeError unless the score is a number.
\<close>

definition count_matched :: "string list \<Rightarrow> string \<Rightarrow> nat" where
  "count_matched query_words text_lower =
     length (filter (\<lambda>word. str_contains word text_lower) query_words)"

definition hybrid_result :: "engine \<Rightarrow> string \<Rightarrow> string list \<Rightarrow> nat \<Rightarrow> pydict \<Rightarrow> error + pydict" where
  "hybrid_result self query_text query_words total_words result =
     (let document_text = dict_get result ''text'' (PyStr []);
          semantic_score = dict_get result ''score'' (PyFloat 0)
      in case document_text of
           PyStr text \<Rightarrow>
             (let keyword_score = calculate_keyword_score self query_text text;
                  matched_words = count_matched query_words (str_lower text)
              in case as_number semantic_score of
                   None \<Rightarrow> Inl TypeError
                 | Some s \<Rightarrow>
                     (let hybrid_score = calculate_hybrid_score self s keyword_score
                                            matched_words total_words
                      in Inr (AList.update ''keyword_score'' (PyFloat keyword_score)
                               (AList.update ''semantic_score'' semantic_score
                                 (AList.update ''score'' (PyFloat hybrid_score) result)))))
         | _ \<Rightarrow> Inl AttributeError)"

fun rerank_loop :: "engine \<Rightarrow> string \<Rightarrow> string list \<Rightarrow> nat \<Rightarrow> pydict list \<Rightarrow> pydict list
    \<Rightarrow> error + pydict list" where
  "rerank_loop self query_text query_words total_words [] hybrid_results = Inr hybrid_results"
| "rerank_loop self query_text query_words total_words (result # rest) hybrid_results =
     (case hybrid_result self query_text query_words total_words result of
        Inl e \<Rightarrow> Inl e
      | Inr h \<Rightarrow> rerank_loop self query_text query_words total_words rest (hybrid_results @ [h]))"

definition rerank_results :: "engine \<Rightarrow> string \<Rightarrow> pydict list \<Rightarrow> error + pydict list" where
  "rerank_results self query_text semantic_results =
     (let query_words = str_split (str_lower query_text);
          total_words = length query_words
      in if query_words = [] then Inr semantic_results
         else (case rerank_loop self query_text query_words total_words semantic_results [] of
                 Inl e \<Rightarrow> Inl e
               | Inr hybrid_results \<Rightarrow> Inr (sort_desc score_key hybrid_results)))"

subsection \<open>search\<close>

text \<open>
  The semantic search function is the caller's: it returns a list of results or raises.
  Everything raised inside the \<open>try\<close> block leads to the \<open>except\<close> branch, which calls the
  function a second time, with the original limit, outside any handler.
\<close>

type_synonym semantic_search = "string \<Rightarrow> int \<Rightarrow> pydict option \<Rightarrow> error + pydict list"

definition search :: "engine \<Rightarrow> string \<Rightarrow> semantic_search \<Rightarrow> int \<Rightarrow> pydict option
    \<Rightarrow> error + pydict list" where
  "search self query_text semantic_search_func limit filter_dict =
     (let semantic_limit = max (limit * 4) 20
      in case semantic_search_func query_text semantic_limit filter_dict of
           Inl e \<Rightarrow> semantic_search_func query_text limit filter_dict
         | Inr semantic_results \<Rightarrow>
             if semantic_results = [] then Inr []
             else (case rerank_results self query_text semantic_results of
                     Inl e \<Rightarrow> semantic_search_func query_text limit filter_dict
                   | Inr hybrid_results \<Rightarrow> Inr (slice_to limit hybrid_results)))"

section \<open>Properties of the string primitives\<close>

text \<open>\<open>sub\<close> occurs in \<open>text\<close> at index \<open>p\<close>.\<close>

definition occurs_at :: "string \<Rightarrow> string \<Rightarrow> nat \<Rightarrow> bool" where
  "occurs_at sub text p = (p \<le> length text \<and> prefix sub (drop p text))"

lemma occurs_at_Nil: "occurs_at sub [] p = (p = 0 \<and> sub = [])"
  by (auto simp: occurs_at_def)

lemma occurs_at_Cons_0: "occurs_at sub (c # cs) 0 = prefix sub (c # cs)"
  by (simp add: occurs_at_def)

lemma occurs_at_Cons_Suc: "occurs_at sub (c # cs) (Suc k) = occurs_at sub cs k"
  by (simp add: occurs_at_def)

lemma occurs_at_drop:
  "s \<le> length t \<Longrightarrow> occurs_at sub (drop s t) k = occurs_at sub t (s + k)"
  by (auto simp: occurs_at_def add.commute)

lemma str_contains_iff: "str_contains sub t = (\<exists>p. occurs_at sub t p)"
proof (induction t)
  case Nil
  show ?case by (simp add: occurs_at_Nil)
next
  case (Cons c cs)
  have "(\<exists>p. occurs_at sub (c # cs) p) = (prefix sub (c # cs) \<or> (\<exists>k. occurs_at sub cs k))"
  proof
    assume "\<exists>p. occurs_at sub (c # cs) p"
    then obtain p where p: "occurs_at sub (c # cs) p" ..
    show "prefix sub (c # cs) \<or> (\<exists>k. occurs_at sub cs k)"
    proof (cases p)
      case 0
      with p show ?thesis by (simp add: occurs_at_Cons_0)
    next
      case (Suc k)
      with p show ?thesis by (auto simp: occurs_at_Cons_Suc)
    qed
  next
    assume "prefix sub (c # cs) \<or> (\<exists>k. occurs_at sub cs k)"
    then show "\<exists>p. occurs_at sub (c # cs) p"
      using occurs_at_Cons_0 occurs_at_Cons_Suc by blast
  qed
  with Cons show ?case by simp
qed

lemma find_aux_Some:
  "find_aux sub t i = Some p \<Longrightarrow>
     i \<le> p \<and> occurs_at sub t (p - i) \<and> (\<forall>k < p - i. \<not> occurs_at sub t k)"
proof (induction t arbitrary: i)
  case Nil
  then show ?case by (auto simp: occurs_at_Nil split: if_splits)
next
  case (Cons c cs)
  show ?case
  proof (cases "prefix sub (c # cs)")
    case True
    with Cons.prems show ?thesis by (simp add: occurs_at_Cons_0)
  next
    case False
    with Cons.prems have "find_aux sub cs (Suc i) = Some p" by simp
    from Cons.IH [OF this]
    have ih: "Suc i \<le> p" "occurs_at sub cs (p - Suc i)"
      "\<forall>k < p - Suc i. \<not> occurs_at sub cs k" by auto
    from ih(1) have eq: "p - i = Suc (p - Suc i)" by simp
    have "\<not> occurs_at sub (c # cs) k" if "k < p - i" for k
    proof (cases k)
      case 0
      with False show ?thesis by (simp add: occurs_at_Cons_0)
    next
      case (Suc k')
      with that eq have "k' < p - Suc i" by simp
      with ih(3) Suc show ?thesis by (simp add: occurs_at_Cons_Suc)
    qed
    with ih eq show ?thesis by (simp add: occurs_at_Cons_Suc)
  qed
qed

lemma find_aux_None: "find_aux sub t i = None \<Longrightarrow> \<not> occurs_at sub t k"
proof (induction t arbitrary: i k)
  case Nil
  then show ?case by (auto simp: occurs_at_Nil split: if_splits)
next
  case (Cons c cs)
  from Cons.prems have np: "\<not> prefix sub (c # cs)" and rest: "find_aux sub cs (Suc i) = None"
    by (auto split: if_splits)
  show ?case
  proof (cases k)
    case 0
    with np show ?thesis by (simp add: occurs_at_Cons_0)
  next
    case (Suc k')
    with Cons.IH [OF rest] show ?thesis by (simp add: occurs_at_Cons_Suc)
  qed
qed

lemma str_find_Some:
  assumes "str_find t sub s = Some p"
  shows "s \<le> p" and "occurs_at sub t p" and "\<And>k. s \<le> k \<Longrightarrow> k < p \<Longrightarrow> \<not> occurs_at sub t k"
proof -
  from assms have len: "s \<le> length t" and fa: "find_aux sub (drop s t) s = Some p"
    by (auto simp: str_find_def split: if_splits)
  from find_aux_Some [OF fa]
  have a: "s \<le> p" and b: "occurs_at sub (drop s t) (p - s)"
    and c: "\<forall>k < p - s. \<not> occurs_at sub (drop s t) k" by auto
  show "s \<le> p" by (rule a)
  from a b len show "occurs_at sub t p" by (simp add: occurs_at_drop)
  fix k assume "s \<le> k" "k < p"
  then have "k - s < p - s" by simp
  with c have "\<not> occurs_at sub (drop s t) (k - s)" by blast
  with len \<open>s \<le> k\<close> show "\<not> occurs_at sub t k" by (simp add: occurs_at_drop)
qed

lemma str_find_None:
  assumes "str_find t sub s = None" and "s \<le> k"
  shows "\<not> occurs_at sub t k"
proof (cases "length t < s")
  case True
  with assms(2) show ?thesis by (simp add: occurs_at_def)
next
  case False
  with assms(1) have "find_aux sub (drop s t) s = None" by (simp add: str_find_def)
  then have "\<not> occurs_at sub (drop s t) (k - s)" by (rule find_aux_None)
  with False assms(2) show ?thesis by (simp add: occurs_at_drop)
qed

lemma set_positions_loop:
  "set (positions_loop t w s acc) = set acc \<union> {p. s \<le> p \<and> occurs_at w t p}"
proof (induction t w s acc rule: positions_loop.induct)
  case (1 t w s acc)
  show ?case
  proof (cases "str_find t w s")
    case None
    then have e: "{p. s \<le> p \<and> occurs_at w t p} = {}"
      using str_find_None by blast
    show ?thesis by (subst positions_loop.simps) (simp add: None e)
  next
    case (Some pos)
    have "{p. s \<le> p \<and> occurs_at w t p} = insert pos {p. pos + 1 \<le> p \<and> occurs_at w t p}"
      (is "?L = ?R")
    proof (rule set_eqI)
      fix p
      show "(p \<in> ?L) = (p \<in> ?R)"
        using str_find_Some [OF Some]
        by (metis (mono_tags, lifting) Suc_eq_plus1 insert_iff le_trans linorder_not_less
            mem_Collect_eq not_less_eq_eq order_le_less)
    qed
    then have e: "{p. s \<le> p \<and> occurs_at w t p} = insert pos {p. Suc pos \<le> p \<and> occurs_at w t p}"
      by simp
    show ?thesis
      using "1.IH" [OF Some] by (subst positions_loop.simps) (simp add: Some e)
  qed
qed

lemma positions_nonempty: "(positions_loop t w 0 [] \<noteq> []) = str_contains w t"
proof -
  have "(positions_loop t w 0 [] \<noteq> []) = (set (positions_loop t w 0 []) \<noteq> {})" by simp
  also have "\<dots> = (\<exists>p. occurs_at w t p)" by (auto simp: set_positions_loop)
  finally show ?thesis by (simp add: str_contains_iff)
qed

lemma words_found_eq:
  "words_found_loop ws t =
     map (\<lambda>w. (w, positions_loop t w 0 [])) (filter (\<lambda>w. str_contains w t) ws)"
  by (induction ws) (simp_all add: Let_def positions_nonempty)

section \<open>Properties of the proximity loops\<close>

text \<open>Some position of the first list is at most \<open>d\<close> away from one of the second.\<close>

definition close_lists :: "nat \<Rightarrow> nat list \<Rightarrow> nat list \<Rightarrow> bool" where
  "close_lists d ps1 ps2 =
     (\<exists>pos1 \<in> set ps1. \<exists>pos2 \<in> set ps2. \<bar>int pos1 - int pos2\<bar> \<le> int d)"

lemma pos2_loop_eq:
  "pos2_loop d pos1 ps st =
     (if \<exists>pos2 \<in> set ps. \<bar>int pos1 - int pos2\<bar> \<le> int d then (0.3, True) else st)"
  by (induction ps) auto

lemma pos1_loop_eq:
  "\<not> snd st \<Longrightarrow> pos1_loop d ps1 ps2 st = (if close_lists d ps1 ps2 then (0.3, True) else st)"
  unfolding close_lists_def by (induction ps1) (auto simp: pos2_loop_eq Let_def)

lemma j_loop_eq:
  "j_loop d i ps1 js st =
     (if snd st then st
      else if \<exists>e \<in> set js. i \<noteq> fst e \<and> close_lists d ps1 (snd (snd e))
           then (0.3, True) else st)"
proof (induction js)
  case Nil
  show ?case by simp
next
  case (Cons a js)
  obtain j w2 ps2 where a: "a = (j, w2, ps2)" by (cases a) auto
  show ?case
  proof (cases "snd st")
    case True
    then show ?thesis by (simp add: a)
  next
    case notyet: False
    show ?thesis
    proof (cases "i \<noteq> j \<and> close_lists d ps1 ps2")
      case True
      with notyet have "j_loop d i ps1 (a # js) st = (0.3, True)"
        by (simp add: a pos1_loop_eq)
      moreover from True have "\<exists>e \<in> set (a # js). i \<noteq> fst e \<and> close_lists d ps1 (snd (snd e))"
        by (simp add: a)
      ultimately show ?thesis using notyet by simp
    next
      case False
      with notyet have
        "(if i \<noteq> j \<and> \<not> snd st then pos1_loop d ps1 ps2 st else st) = st"
        by (auto simp: pos1_loop_eq)
      with notyet have "j_loop d i ps1 (a # js) st = j_loop d i ps1 js st"
        by (simp add: a)
      moreover from False have
        "(\<exists>e \<in> set (a # js). i \<noteq> fst e \<and> close_lists d ps1 (snd (snd e)))
         = (\<exists>e \<in> set js. i \<noteq> fst e \<and> close_lists d ps1 (snd (snd e)))"
        by (auto simp: a)
      ultimately show ?thesis using Cons.IH by simp
    qed
  qed
qed

lemma i_loop_eq:
  "i_loop d all_found is st =
     (if snd st then st
      else if \<exists>e1 \<in> set is. \<exists>e2 \<in> set all_found.
                fst e1 \<noteq> fst e2 \<and> close_lists d (snd (snd e1)) (snd (snd e2))
           then (0.3, True) else st)"
proof (induction "is" arbitrary: st)
  case Nil
  show ?case by simp
next
  case (Cons a "is")
  obtain i w1 ps1 where a: "a = (i, w1, ps1)" by (cases a) auto
  show ?case
    by (auto simp: a Cons.IH j_loop_eq)
qed

text \<open>Two entries of \<open>words_found\<close> at different indices with positions at most \<open>d\<close> apart.\<close>

definition close_pair :: "nat \<Rightarrow> (string \<times> nat list) list \<Rightarrow> bool" where
  "close_pair d words_found =
     (\<exists>i < length words_found. \<exists>j < length words_found. i \<noteq> j \<and>
        close_lists d (snd (words_found ! i)) (snd (words_found ! j)))"

lemma enumerate_close_pair:
  "(\<exists>e1 \<in> set (enumerate 0 fnd). \<exists>e2 \<in> set (enumerate 0 fnd).
      fst e1 \<noteq> fst e2 \<and> close_lists d (snd (snd e1)) (snd (snd e2))) = close_pair d fnd"
proof
  assume "\<exists>e1 \<in> set (enumerate 0 fnd). \<exists>e2 \<in> set (enumerate 0 fnd).
      fst e1 \<noteq> fst e2 \<and> close_lists d (snd (snd e1)) (snd (snd e2))"
  then obtain e1 e2 where e: "e1 \<in> set (enumerate 0 fnd)" "e2 \<in> set (enumerate 0 fnd)"
    "fst e1 \<noteq> fst e2" "close_lists d (snd (snd e1)) (snd (snd e2))" by blast
  from e(1) have 1: "fst e1 < length fnd" "fnd ! fst e1 = snd e1"
    by (simp_all add: in_set_enumerate_eq)
  from e(2) have 2: "fst e2 < length fnd" "fnd ! fst e2 = snd e2"
    by (simp_all add: in_set_enumerate_eq)
  show "close_pair d fnd"
    unfolding close_pair_def using 1 2 e(3,4) by metis
next
  assume "close_pair d fnd"
  then obtain i j where ij: "i < length fnd" "j < length fnd" "i \<noteq> j"
    "close_lists d (snd (fnd ! i)) (snd (fnd ! j))"
    unfolding close_pair_def by blast
  have "(i, fnd ! i) \<in> set (enumerate 0 fnd)" "(j, fnd ! j) \<in> set (enumerate 0 fnd)"
    using ij(1,2) by (simp_all add: in_set_enumerate_eq)
  with ij(3,4) show "\<exists>e1 \<in> set (enumerate 0 fnd). \<exists>e2 \<in> set (enumerate 0 fnd).
      fst e1 \<noteq> fst e2 \<and> close_lists d (snd (snd e1)) (snd (snd e2))"
    by force
qed

lemma close_pair_length: "close_pair d fnd \<Longrightarrow> 2 \<le> length fnd"
  unfolding close_pair_def by (cases fnd; cases "tl fnd") auto

lemma proximity_bonus_eq:
  "calculate_proximity_bonus self ws t =
     (if close_pair (proximity_distance self) (words_found_loop ws t) then 0.3 else 0)"
proof (cases "2 \<le> length (words_found_loop ws t)")
  case True
  then show ?thesis
    by (simp add: calculate_proximity_bonus_def Let_def i_loop_eq enumerate_close_pair)
next
  case False
  then have "\<not> close_pair (proximity_distance self) (words_found_loop ws t)"
    using close_pair_length by blast
  with False show ?thesis by (simp add: calculate_proximity_bonus_def Let_def)
qed

lemma proximity_bonus_range:
  "calculate_proximity_bonus self ws t = 0 \<or> calculate_proximity_bonus self ws t = 0.3"
  by (simp add: proximity_bonus_eq)

lemma proximity_bonus_pair:
  assumes "w1 \<in> set ws" "w2 \<in> set ws" "w1 \<noteq> w2"
    and "occurs_at w1 t p1" "occurs_at w2 t p2"
    and "\<bar>int p1 - int p2\<bar> \<le> int (proximity_distance self)"
  shows "calculate_proximity_bonus self ws t = 0.3"
proof -
  let ?ms = "filter (\<lambda>w. str_contains w t) ws"
  let ?wf = "words_found_loop ws t"
  from assms have "w1 \<in> set ?ms" "w2 \<in> set ?ms" by (auto simp: str_contains_iff)
  then obtain i j where i: "i < length ?ms" "?ms ! i = w1" and j: "j < length ?ms" "?ms ! j = w2"
    by (metis in_set_conv_nth)
  from i j assms(3) have ij: "i \<noteq> j" by auto
  have wi: "?wf ! i = (w1, positions_loop t w1 0 [])" using i by (simp add: words_found_eq)
  have wj: "?wf ! j = (w2, positions_loop t w2 0 [])" using j by (simp add: words_found_eq)
  have len: "length ?wf = length ?ms" by (simp add: words_found_eq)
  have p1: "p1 \<in> set (positions_loop t w1 0 [])" using assms(4) by (simp add: set_positions_loop)
  have p2: "p2 \<in> set (positions_loop t w2 0 [])" using assms(5) by (simp add: set_positions_loop)
  have "close_lists (proximity_distance self) (snd (?wf ! i)) (snd (?wf ! j))"
    unfolding close_lists_def using wi wj p1 p2 assms(6) by auto
  then have "close_pair (proximity_distance self) ?wf"
    unfolding close_pair_def using i(1) j(1) ij len by auto
  then show ?thesis by (simp add: proximity_bonus_eq)
qed

section \<open>Properties of the keyword score\<close>

lemma match_loop_eq:
  "match_loop ws t (m, k) = (m + count_matched ws t, k + real (count_matched ws t))"
  by (induction ws arbitrary: m k) (simp_all add: count_matched_def)

lemma count_matched_le: "count_matched ws t \<le> length ws"
  by (simp add: count_matched_def)

lemma keyword_score_eq:
  "calculate_keyword_score self q d =
     (if str_split (str_lower q) = [] then 0
      else (real (count_matched (str_split (str_lower q)) (str_lower d))
            + phrase_bonus self (str_split (str_lower q)) (str_lower q) (str_lower d)
                (count_matched (str_split (str_lower q)) (str_lower d)))
           / real (length (str_split (str_lower q))))"
  by (simp add: calculate_keyword_score_def Let_def match_loop_eq)

lemma phrase_bonus_range:
  "phrase_bonus self ws ql tx m = 0 \<or> phrase_bonus self ws ql tx m = 0.3
     \<or> phrase_bonus self ws ql tx m = 0.5"
  using proximity_bonus_range [of self ws tx] by (auto simp: phrase_bonus_def)


section \<open>Pairs of query words\<close>












section \<open>The keyword score: bonuses and normalisation\<close>




text \<open>
  C9. The keyword score is the accumulated score, one per query word found plus one bonus
  that is 0, 0.3 or 0.5, divided by the number of query words; it is 0 for a query
  without words; and it always lies between 0 and 1.5.
\<close>

theorem keyword_score_normalised:
  fixes self :: engine and q d :: string
  defines "ws \<equiv> str_split (str_lower q)" and "tx \<equiv> str_lower d"
  defines "b \<equiv> phrase_bonus self ws (str_lower q) tx (count_matched ws tx)"
  shows "calculate_keyword_score self q d
           = (if ws = [] then 0 else (real (count_matched ws tx) + b) / real (length ws))
         \<and> count_matched ws tx \<le> length ws
         \<and> (b = 0 \<or> b = 0.3 \<or> b = 0.5)
         \<and> 0 \<le> calculate_keyword_score self q d
         \<and> calculate_keyword_score self q d \<le> 1.5"
proof -
  let ?m = "count_matched ws tx"
  have eq: "calculate_keyword_score self q d
              = (if ws = [] then 0 else (real ?m + b) / real (length ws))"
    by (simp add: keyword_score_eq ws_def tx_def b_def)
  have le: "?m \<le> length ws" by (rule count_matched_le)
  have range: "b = 0 \<or> b = 0.3 \<or> b = 0.5" unfolding b_def by (rule phrase_bonus_range)
  have bounds: "0 \<le> (real ?m + b) / real (length ws) \<and> (real ?m + b) / real (length ws) \<le> 1.5"
    if ne: "ws \<noteq> []"
  proof -
    from ne have n: "1 \<le> real (length ws)" by (cases ws) auto
    from range have b: "0 \<le> b" "b \<le> 0.5" by auto
    from le have m: "real ?m \<le> real (length ws)" by simp
    have "0 \<le> real ?m + b" using b by simp
    then have lower: "0 \<le> (real ?m + b) / real (length ws)" by simp
    from n have npos: "0 < real (length ws)" by linarith
    have "real ?m + b \<le> 1.5 * real (length ws)" using m b n by simp
    moreover have "((real ?m + b) / real (length ws) \<le> 1.5)
                     = (real ?m + b \<le> 1.5 * real (length ws))"
      by (rule pos_divide_le_eq [OF npos])
    ultimately have "(real ?m + b) / real (length ws) \<le> 1.5" by blast
    with lower show ?thesis by blast
  qed
  from eq le range bounds show ?thesis by (cases "ws = []") simp_all
qed

theorem keyword_score_normalised_witness:
  "calculate_keyword_score hybrid_search_engine ''alpha beta'' ''Alpha Beta'' = (2 + 0.5) / 2
   \<and> calculate_keyword_score hybrid_search_engine ''  '' ''Alpha Beta'' = 0
   \<and> 0 \<le> calculate_keyword_score hybrid_search_engine ''alpha beta'' ''Alpha Beta''
   \<and> calculate_keyword_score hybrid_search_engine ''alpha beta'' ''Alpha Beta'' \<le> 1.5"
proof -
  have ql: "str_lower ''alpha beta'' = ''alpha beta''" by code_simp
  have ws: "str_split ''alpha beta'' = [''alpha'', ''beta'']" by code_simp
  have tx: "str_lower ''Alpha Beta'' = ''alpha beta''" by code_simp
  have cm: "count_matched [''alpha'', ''beta''] ''alpha beta'' = 2" by code_simp
  have ph: "str_contains ''alpha beta'' ''alpha beta''" by code_simp
  have b: "phrase_bonus hybrid_search_engine [''alpha'', ''beta''] ''alpha beta'' ''alpha beta'' 2
             = 0.5"
    using ph by (simp add: phrase_bonus_def)
  have e: "str_split (str_lower ''  '') = []" by code_simp
  from keyword_score_normalised [of hybrid_search_engine "''alpha beta''" "''Alpha Beta''"]
  have 1: "calculate_keyword_score hybrid_search_engine ''alpha beta'' ''Alpha Beta''
             = (2 + 0.5) / 2"
    and 2: "0 \<le> calculate_keyword_score hybrid_search_engine ''alpha beta'' ''Alpha Beta''"
    and 3: "calculate_keyword_score hybrid_search_engine ''alpha beta'' ''Alpha Beta'' \<le> 1.5"
    unfolding ql ws tx cm b by simp_all
  from keyword_score_normalised [of hybrid_search_engine "''  ''" "''Alpha Beta''"]
  have 4: "calculate_keyword_score hybrid_search_engine ''  '' ''Alpha Beta'' = 0"
    unfolding e by simp
  from 1 2 3 4 show ?thesis by simp
qed

section \<open>Properties of re-ranking\<close>

text \<open>The text and the semantic score that the loop body reads from a well-typed result.\<close>

definition text_of :: "pydict \<Rightarrow> string" where
  "text_of result = (case dict_get result ''text'' (PyStr []) of PyStr t \<Rightarrow> t | _ \<Rightarrow> [])"

definition semantic_of :: "pydict \<Rightarrow> real" where
  "semantic_of result =
     (case as_number (dict_get result ''score'' (PyFloat 0)) of Some s \<Rightarrow> s | None \<Rightarrow> 0)"

text \<open>The hybrid score that the loop body computes for a well-typed result.\<close>

definition hybrid_of :: "engine \<Rightarrow> string \<Rightarrow> string list \<Rightarrow> nat \<Rightarrow> pydict \<Rightarrow> real" where
  "hybrid_of self q ws n result =
     calculate_hybrid_score self (semantic_of result)
       (calculate_keyword_score self q (text_of result))
       (count_matched ws (str_lower (text_of result))) n"

definition rescored :: "engine \<Rightarrow> string \<Rightarrow> string list \<Rightarrow> nat \<Rightarrow> pydict \<Rightarrow> pydict" where
  "rescored self q ws n result =
     AList.update ''keyword_score'' (PyFloat (calculate_keyword_score self q (text_of result)))
       (AList.update ''semantic_score'' (dict_get result ''score'' (PyFloat 0))
         (AList.update ''score'' (PyFloat (hybrid_of self q ws n result)) result))"

lemma hybrid_result_ok:
  assumes "well_typed r"
  shows "hybrid_result self q ws n r = Inr (rescored self q ws n r)"
proof -
  from assms obtain t where t: "dict_get r ''text'' (PyStr []) = PyStr t"
    by (cases "dict_get r ''text'' (PyStr [])") (auto simp: well_typed_def)
  from assms obtain s where s: "as_number (dict_get r ''score'' (PyFloat 0)) = Some s"
    by (auto simp: well_typed_def)
  show ?thesis
    by (simp add: hybrid_result_def rescored_def hybrid_of_def text_of_def semantic_of_def
        Let_def t s)
qed

lemma hybrid_result_error:
  assumes "\<not> well_typed r"
  shows "\<exists>e. hybrid_result self q ws n r = Inl e"
proof (cases "dict_get r ''text'' (PyStr [])")
  case (PyStr t)
  with assms have "as_number (dict_get r ''score'' (PyFloat 0)) = None"
    by (simp add: well_typed_def)
  with PyStr show ?thesis by (simp add: hybrid_result_def Let_def)
qed (simp_all add: hybrid_result_def Let_def)

lemma rerank_loop_ok:
  "\<forall>r \<in> set rs. well_typed r \<Longrightarrow>
     rerank_loop self q ws n rs acc = Inr (acc @ map (rescored self q ws n) rs)"
  by (induction rs arbitrary: acc) (simp_all add: hybrid_result_ok)

lemma rerank_loop_error:
  "\<exists>r \<in> set rs. \<not> well_typed r \<Longrightarrow> \<exists>e. rerank_loop self q ws n rs acc = Inl e"
proof (induction rs arbitrary: acc)
  case Nil
  then show ?case by simp
next
  case (Cons r rs)
  show ?case
  proof (cases "well_typed r")
    case True
    with Cons.prems have "\<exists>r \<in> set rs. \<not> well_typed r" by auto
    from Cons.IH [OF this] True show ?thesis by (simp add: hybrid_result_ok)
  next
    case False
    from hybrid_result_error [OF this] obtain e
      where "hybrid_result self q ws n r = Inl e" by blast
    then show ?thesis by simp
  qed
qed

lemma rerank_results_error:
  assumes "str_split (str_lower q) \<noteq> []" and "\<exists>r \<in> set rs. \<not> well_typed r"
  shows "\<exists>e. rerank_results self q rs = Inl e"
proof -
  from rerank_loop_error [OF assms(2)] obtain e
    where "rerank_loop self q (str_split (str_lower q)) (length (str_split (str_lower q))) rs []
             = Inl e" by blast
  with assms(1) show ?thesis by (simp add: rerank_results_def Let_def)
qed

lemma rerank_results_ok:
  assumes "str_split (str_lower q) \<noteq> []" and "\<forall>r \<in> set rs. well_typed r"
  shows "rerank_results self q rs =
           Inr (sort_desc score_key
                  (map (rescored self q (str_split (str_lower q))
                          (length (str_split (str_lower q)))) rs))"
  using assms by (simp add: rerank_results_def Let_def rerank_loop_ok)

lemma rerank_results_empty_query:
  "str_split (str_lower q) = [] \<Longrightarrow> rerank_results self q rs = Inr rs"
  by (simp add: rerank_results_def)

lemma map_of_rescored:
  "map_of (rescored self q ws n r) =
     (map_of r)(''score'' \<mapsto> PyFloat (hybrid_of self q ws n r),
                ''semantic_score'' \<mapsto> dict_get r ''score'' (PyFloat 0),
                ''keyword_score'' \<mapsto> PyFloat (calculate_keyword_score self q (text_of r)))"
  by (simp add: rescored_def update_conv')

lemma score_key_rescored: "score_key (rescored self q ws n r) = hybrid_of self q ws n r"
  by (simp add: score_key_def map_of_rescored)

lemma count_matched_all:
  "(count_matched ws t = length ws) = (\<forall>w \<in> set ws. str_contains w t)"
proof
  assume eq: "count_matched ws t = length ws"
  show "\<forall>w \<in> set ws. str_contains w t"
  proof (rule ccontr)
    assume "\<not> (\<forall>w \<in> set ws. str_contains w t)"
    then obtain w where "w \<in> set ws" "\<not> str_contains w t" by blast
    then have "length (filter (\<lambda>w. str_contains w t) ws) < length ws"
      by (rule length_filter_less)
    with eq show False by (simp add: count_matched_def)
  qed
next
  assume "\<forall>w \<in> set ws. str_contains w t"
  then show "count_matched ws t = length ws" by (simp add: count_matched_def)
qed

section \<open>The hybrid score\<close>

text \<open>
  C5. The hybrid score is \<open>0.6 * semantic + 0.4 * keyword\<close> when the matched-word count
  equals the number of query words, which is the case exactly when every query word occurs
  in the lowercase text, and \<open>semantic_weight * semantic + keyword_weight * keyword\<close>
  (0.7 and 0.3 for the default engine) otherwise; for a semantic score 0.5 and a keyword
  score 1.0 with every word found it is 0.7. The loop body of rerank\_results stores, for
  every well-typed candidate, this score of the candidate's semantic score, keyword score
  and matched-word count under the key \<open>score\<close>.
\<close>

theorem hybrid_score_weighting:
  fixes self :: engine and q :: string and r :: pydict
  defines "ws \<equiv> str_split (str_lower q)"
  shows "(m = n \<longrightarrow> calculate_hybrid_score self s k m n = 0.6 * s + 0.4 * k)
       \<and> (m \<noteq> n \<longrightarrow> calculate_hybrid_score self s k m n
                          = semantic_weight self * s + keyword_weight self * k)
       \<and> (m \<noteq> n \<longrightarrow> calculate_hybrid_score hybrid_search_engine s k m n = 0.7 * s + 0.3 * k)
       \<and> calculate_hybrid_score self 0.5 1.0 n n = 0.7
       \<and> ((count_matched ws tx = length ws) = (\<forall>w \<in> set ws. str_contains w tx))
       \<and> (well_typed r \<longrightarrow>
            (\<exists>h. hybrid_result self q ws (length ws) r = Inr h
               \<and> map_of h ''score'' = Some (PyFloat
                    (calculate_hybrid_score self (semantic_of r)
                       (calculate_keyword_score self q (text_of r))
                       (count_matched ws (str_lower (text_of r))) (length ws)))))"
proof -
  have 1: "m = n \<longrightarrow> calculate_hybrid_score self s k m n = 0.6 * s + 0.4 * k"
    by (simp add: calculate_hybrid_score_def)
  have 2: "m \<noteq> n \<longrightarrow> calculate_hybrid_score self s k m n
                          = semantic_weight self * s + keyword_weight self * k"
    by (simp add: calculate_hybrid_score_def)
  have 3: "m \<noteq> n \<longrightarrow> calculate_hybrid_score hybrid_search_engine s k m n = 0.7 * s + 0.3 * k"
    by (simp add: calculate_hybrid_score_def hybrid_search_engine_def HybridSearchEngine_def)
  have 4: "calculate_hybrid_score self 0.5 1.0 n n = 0.7"
    by (simp add: calculate_hybrid_score_def)
  have 5: "(count_matched ws tx = length ws) = (\<forall>w \<in> set ws. str_contains w tx)"
    by (rule count_matched_all)
  have 6: "well_typed r \<longrightarrow>
            (\<exists>h. hybrid_result self q ws (length ws) r = Inr h
               \<and> map_of h ''score'' = Some (PyFloat
                    (calculate_hybrid_score self (semantic_of r)
                       (calculate_keyword_score self q (text_of r))
                       (count_matched ws (str_lower (text_of r))) (length ws))))"
    by (simp add: hybrid_result_ok map_of_rescored hybrid_of_def)
  from 1 2 3 4 5 6 show ?thesis by blast
qed

text \<open>A hit whose two query words are more than 50 characters apart: keyword score 1.\<close>

definition far_hit :: pydict where
  "far_hit = [(''id'', PyStr ''p1''), (''score'', PyFloat 0.5),
              (''text'', PyStr (''Alpha '' @ replicate 60 CHR ''x'' @ '' Beta''))]"

theorem hybrid_score_weighting_witness:
  "calculate_hybrid_score hybrid_search_engine 0.5 1.0 2 2 = 0.6 * 0.5 + 0.4 * 1.0
   \<and> calculate_hybrid_score hybrid_search_engine 0.5 1.0 2 2 = 0.7
   \<and> calculate_hybrid_score hybrid_search_engine 0.5 0.5 1 2 = 0.7 * 0.5 + 0.3 * 0.5
   \<and> well_typed far_hit
   \<and> (\<exists>h. hybrid_result hybrid_search_engine ''alpha beta'' [''alpha'', ''beta''] 2 far_hit = Inr h
        \<and> map_of h ''score'' = Some (PyFloat 0.7))"
proof -
  have wt: "well_typed far_hit" by (simp add: well_typed_def far_hit_def dict_get_def)
  have ql: "str_lower ''alpha beta'' = ''alpha beta''" by code_simp
  have ws: "str_split ''alpha beta'' = [''alpha'', ''beta'']" by code_simp
  have sem: "semantic_of far_hit = 0.5" by (simp add: semantic_of_def far_hit_def dict_get_def)
  have cm: "count_matched [''alpha'', ''beta''] (str_lower (text_of far_hit)) = 2" by code_simp
  have kw: "calculate_keyword_score hybrid_search_engine ''alpha beta'' (text_of far_hit) = 1"
    by code_simp
  note t = hybrid_score_weighting [of 2 2 hybrid_search_engine "0.5" "1.0" "''alpha beta''"
      "''''" far_hit]
  note u = hybrid_score_weighting [of 1 2 hybrid_search_engine "0.5" "0.5" "''alpha beta''"
      "''''" far_hit]
  from t have a: "calculate_hybrid_score hybrid_search_engine 0.5 1.0 2 2 = 0.6 * 0.5 + 0.4 * 1.0"
    by simp
  from t have a7: "calculate_hybrid_score hybrid_search_engine 0.5 1.0 2 2 = 0.7"
    by simp
  from t have a7': "calculate_hybrid_score hybrid_search_engine 0.5 1 2 2 = 0.7"
    by simp
  from u have b: "calculate_hybrid_score hybrid_search_engine 0.5 0.5 1 2 = 0.7 * 0.5 + 0.3 * 0.5"
    by simp
  from t wt have "\<exists>h. hybrid_result hybrid_search_engine ''alpha beta'' [''alpha'', ''beta''] 2
                       far_hit = Inr h
                \<and> map_of h ''score'' = Some (PyFloat
                    (calculate_hybrid_score hybrid_search_engine 0.5 1 2 2))"
    unfolding ql ws sem cm kw by (simp add: numeral_2_eq_2)
  then have ex: "\<exists>h. hybrid_result hybrid_search_engine ''alpha beta'' [''alpha'', ''beta''] 2
                       far_hit = Inr h
                \<and> map_of h ''score'' = Some (PyFloat 0.7)"
    unfolding a7' .
  from a a7 b wt ex show ?thesis by blast
qed

section \<open>Example hits and semantic search functions\<close>

definition hit_low :: pydict where
  "hit_low = [(''id'', PyStr ''a''), (''score'', PyFloat 0.1), (''text'', PyStr ''Beta only'')]"

definition hit_high :: pydict where
  "hit_high = [(''id'', PyStr ''b''), (''score'', PyFloat 0.9), (''text'', PyStr ''Alpha here'')]"

text \<open>A hit whose payload text is \<open>None\<close>: \<open>document_text.lower()\<close> raises on it.\<close>

definition bad_hit :: pydict where
  "bad_hit = [(''id'', PyStr ''c''), (''score'', PyFloat 0.8), (''text'', PyNone)]"

text \<open>A semantic search that returns the first \<open>k\<close> entries of a fixed ranking.\<close>

definition top_k :: "pydict list \<Rightarrow> semantic_search" where
  "top_k ranking q k filter_dict = Inr (slice_to k ranking)"

text \<open>A semantic search that answers the over-fetch but finds nothing for a small limit.\<close>

definition empty_after :: semantic_search where
  "empty_after q k filter_dict = (if 20 \<le> k then Inr [bad_hit] else Inr [])"

section \<open>Re-ranking keeps the candidates\<close>

text \<open>
  C10, as the code has it. Take a query with at least one word. When every semantic result
  is well typed (its text, if present, is a \<open>str\<close> and its score, if present, a number),
  rerank\_results returns a list \<open>hs\<close> of the same length that is a permutation of the list
  \<open>hs0\<close> of re-scored candidates, where the \<open>i\<close>-th entry of \<open>hs0\<close> is the \<open>i\<close>-th input
  with only the keys \<open>score\<close>, \<open>semantic_score\<close> and \<open>keyword_score\<close> set:
  \<open>semantic_score\<close> holds the input's score and \<open>keyword_score\<close> is
  calculate\_keyword\_score of the query and the input's text. When some result is not
  well typed, rerank\_results raises and returns no list.
\<close>

theorem rerank_is_permutation:
  fixes self :: engine and q :: string and rs :: "pydict list"
  assumes words: "str_split (str_lower q) \<noteq> []"
  shows "((\<forall>r \<in> set rs. well_typed r) \<longrightarrow>
           (\<exists>hs hs0. rerank_results self q rs = Inr hs
              \<and> length hs = length rs \<and> length hs0 = length rs \<and> mset hs = mset hs0
              \<and> (\<forall>i < length rs.
                    (\<forall>key. key \<notin> {''score'', ''semantic_score'', ''keyword_score''}
                       \<longrightarrow> map_of (hs0 ! i) key = map_of (rs ! i) key)
                  \<and> map_of (hs0 ! i) ''semantic_score''
                      = Some (dict_get (rs ! i) ''score'' (PyFloat 0))
                  \<and> map_of (hs0 ! i) ''keyword_score''
                      = Some (PyFloat (calculate_keyword_score self q (text_of (rs ! i)))))))
       \<and> ((\<exists>r \<in> set rs. \<not> well_typed r) \<longrightarrow> (\<exists>e. rerank_results self q rs = Inl e))"
proof -
  let ?ws = "str_split (str_lower q)"
  let ?pre = "map (rescored self q ?ws (length ?ws)) rs"
  let ?out = "sort_desc score_key ?pre"
  have good: "\<exists>hs hs0. rerank_results self q rs = Inr hs
              \<and> length hs = length rs \<and> length hs0 = length rs \<and> mset hs = mset hs0
              \<and> (\<forall>i < length rs.
                    (\<forall>key. key \<notin> {''score'', ''semantic_score'', ''keyword_score''}
                       \<longrightarrow> map_of (hs0 ! i) key = map_of (rs ! i) key)
                  \<and> map_of (hs0 ! i) ''semantic_score''
                      = Some (dict_get (rs ! i) ''score'' (PyFloat 0))
                  \<and> map_of (hs0 ! i) ''keyword_score''
                      = Some (PyFloat (calculate_keyword_score self q (text_of (rs ! i)))))"
    if typed: "\<forall>r \<in> set rs. well_typed r"
  proof -
    have res: "rerank_results self q rs = Inr ?out"
      by (rule rerank_results_ok [OF words typed])
    have len: "length ?out = length rs" "length ?pre = length rs"
      by (simp_all add: sort_desc_def)
    have perm: "mset ?out = mset ?pre" by (simp add: sort_desc_def)
    have entry: "(\<forall>key. key \<notin> {''score'', ''semantic_score'', ''keyword_score''}
                      \<longrightarrow> map_of (?pre ! i) key = map_of (rs ! i) key)
                 \<and> map_of (?pre ! i) ''semantic_score''
                     = Some (dict_get (rs ! i) ''score'' (PyFloat 0))
                 \<and> map_of (?pre ! i) ''keyword_score''
                     = Some (PyFloat (calculate_keyword_score self q (text_of (rs ! i))))"
      if "i < length rs" for i
      using that by (simp add: map_of_rescored)
    from res len perm entry show ?thesis by blast
  qed
  have bad: "\<exists>e. rerank_results self q rs = Inl e" if "\<exists>r \<in> set rs. \<not> well_typed r"
    by (rule rerank_results_error [OF words that])
  from good bad show ?thesis by blast
qed

theorem rerank_is_permutation_witness:
  "str_split (str_lower ''alpha'') \<noteq> [] \<and> well_typed hit_low \<and> well_typed hit_high
   \<and> (\<exists>hs hs0. rerank_results hybrid_search_engine ''alpha'' [hit_low, hit_high] = Inr hs
         \<and> length hs = 2 \<and> mset hs = mset hs0
         \<and> map_of (hs0 ! 0) ''semantic_score'' = Some (PyFloat 0.1)
         \<and> map_of (hs0 ! 1) ''semantic_score'' = Some (PyFloat 0.9)
         \<and> map_of (hs0 ! 1) ''keyword_score'' = Some (PyFloat 1)
         \<and> map_of (hs0 ! 1) ''id'' = Some (PyStr ''b''))
   \<and> \<not> well_typed bad_hit
   \<and> (\<exists>e. rerank_results hybrid_search_engine ''alpha'' [bad_hit, hit_high] = Inl e)"
proof -
  have words: "str_split (str_lower ''alpha'') \<noteq> []" by code_simp
  have wl: "well_typed hit_low" by (simp add: well_typed_def hit_low_def dict_get_def)
  have wh: "well_typed hit_high" by (simp add: well_typed_def hit_high_def dict_get_def)
  have wb: "\<not> well_typed bad_hit" by (simp add: well_typed_def bad_hit_def dict_get_def)
  have typed: "\<forall>r \<in> set [hit_low, hit_high]. well_typed r" using wl wh by simp
  have untyped: "\<exists>r \<in> set [bad_hit, hit_high]. \<not> well_typed r" using wb by simp
  have kw: "calculate_keyword_score hybrid_search_engine ''alpha'' (text_of hit_high) = 1"
    by code_simp
  from rerank_is_permutation [OF words, of "[hit_low, hit_high]" hybrid_search_engine] typed
  obtain hs hs0 where res: "rerank_results hybrid_search_engine ''alpha'' [hit_low, hit_high] = Inr hs"
    and len: "length hs = length [hit_low, hit_high]" and perm: "mset hs = mset hs0"
    and entry: "\<forall>i < length [hit_low, hit_high].
                 (\<forall>key. key \<notin> {''score'', ''semantic_score'', ''keyword_score''}
                    \<longrightarrow> map_of (hs0 ! i) key = map_of ([hit_low, hit_high] ! i) key)
               \<and> map_of (hs0 ! i) ''semantic_score''
                   = Some (dict_get ([hit_low, hit_high] ! i) ''score'' (PyFloat 0))
               \<and> map_of (hs0 ! i) ''keyword_score''
                   = Some (PyFloat (calculate_keyword_score hybrid_search_engine ''alpha''
                                      (text_of ([hit_low, hit_high] ! i))))"
    by blast
  from rerank_is_permutation [OF words, of "[bad_hit, hit_high]" hybrid_search_engine] untyped
  have raises: "\<exists>e. rerank_results hybrid_search_engine ''alpha'' [bad_hit, hit_high] = Inl e"
    by blast
  from entry have e0: "map_of (hs0 ! 0) ''semantic_score'' = Some (PyFloat 0.1)"
    by (simp add: hit_low_def dict_get_def)
  have one: "(1::nat) < length [hit_low, hit_high]" by simp
  from entry one have e1:
    "(\<forall>key. key \<notin> {''score'', ''semantic_score'', ''keyword_score''}
                    \<longrightarrow> map_of (hs0 ! 1) key = map_of ([hit_low, hit_high] ! 1) key)"
    "map_of (hs0 ! 1) ''semantic_score''
                   = Some (dict_get ([hit_low, hit_high] ! 1) ''score'' (PyFloat 0))"
    "map_of (hs0 ! 1) ''keyword_score''
                   = Some (PyFloat (calculate_keyword_score hybrid_search_engine ''alpha''
                                      (text_of ([hit_low, hit_high] ! 1))))"
    by blast+
  from e1(2) have s1: "map_of (hs0 ! 1) ''semantic_score'' = Some (PyFloat 0.9)"
    by (simp add: hit_high_def dict_get_def)
  from e1(3) have k1: "map_of (hs0 ! 1) ''keyword_score'' = Some (PyFloat 1)"
    by (simp add: kw)
  from e1(1) have "map_of (hs0 ! 1) ''id'' = map_of ([hit_low, hit_high] ! 1) ''id''"
    by simp
  then have i1: "map_of (hs0 ! 1) ''id'' = Some (PyStr ''b'')"
    by (simp add: hit_high_def)
  from len have len2: "length hs = 2" by simp
  from words wl wh res len2 perm e0 s1 k1 i1 wb raises show ?thesis by blast
qed

text \<open>
  The claim as stated fails on a result whose payload text is \<open>None\<close>:
  \<open>document_text.lower()\<close> raises AttributeError and rerank\_results returns no list.
\<close>

theorem rerank_is_permutation_counterexample:
  "str_split (str_lower ''alpha'') = [''alpha'']
   \<and> rerank_results hybrid_search_engine ''alpha'' [bad_hit, hit_high] = Inl AttributeError"
  by code_simp

section \<open>Ordering and truncation\<close>

lemma sort_desc_sorted: "sorted_wrt (\<lambda>a b. key b \<le> key a) (sort_desc key xs)"
proof -
  have "sorted (map (\<lambda>x. - key x) (sort_key (\<lambda>x. - key x) xs))" by (rule sorted_sort_key)
  then show ?thesis by (simp add: sort_desc_def sorted_map)
qed

lemma sort_desc_stable:
  "filter (\<lambda>x. key x = v) (sort_desc key xs) = filter (\<lambda>x. key x = v) xs"
  using sort_key_stable [of "\<lambda>x. - key x" "- v" xs] by (simp add: sort_desc_def)

text \<open>
  C8, as the code has it. A query without words leaves the list as it is. For a query with
  at least one word and well-typed results, let \<open>hs0\<close> be the candidates in their original
  semantic order, each re-scored: its \<open>i\<close>-th entry is what the loop body makes of the
  \<open>i\<close>-th result, and holds under \<open>score\<close> the hybrid score of that result's semantic
  score, keyword score and matched-word count. The returned list \<open>hs\<close> is a permutation
  of \<open>hs0\<close> in descending order of that score, in which the entries of any one score
  stand in the order they have in \<open>hs0\<close>; and for a limit that is not negative, search
  returns the first \<open>limit\<close> entries of \<open>hs\<close>.
\<close>

theorem rerank_sorted_stable_truncated:
  fixes self :: engine and q :: string and rs :: "pydict list"
  defines "ws \<equiv> str_split (str_lower q)"
  shows "(ws = [] \<longrightarrow> rerank_results self q rs = Inr rs)
       \<and> (ws \<noteq> [] \<and> (\<forall>r \<in> set rs. well_typed r) \<longrightarrow>
           (\<exists>hs hs0. rerank_loop self q ws (length ws) rs [] = Inr hs0
              \<and> rerank_results self q rs = Inr hs
              \<and> length hs0 = length rs
              \<and> (\<forall>i < length rs.
                    hybrid_result self q ws (length ws) (rs ! i) = Inr (hs0 ! i)
                  \<and> map_of (hs0 ! i) ''score'' = Some (PyFloat
                       (calculate_hybrid_score self (semantic_of (rs ! i))
                          (calculate_keyword_score self q (text_of (rs ! i)))
                          (count_matched ws (str_lower (text_of (rs ! i)))) (length ws)))
                  \<and> score_key (hs0 ! i)
                      = calculate_hybrid_score self (semantic_of (rs ! i))
                          (calculate_keyword_score self q (text_of (rs ! i)))
                          (count_matched ws (str_lower (text_of (rs ! i)))) (length ws))
              \<and> sorted_wrt (\<lambda>a b. score_key b \<le> score_key a) hs
              \<and> (\<forall>v. filter (\<lambda>h. score_key h = v) hs = filter (\<lambda>h. score_key h = v) hs0)
              \<and> mset hs = mset hs0
              \<and> (\<forall>f limit filt. f q (max (limit * 4) 20) filt = Inr rs \<and> 0 \<le> limit \<longrightarrow>
                    search self q f limit filt = Inr (take (nat limit) hs))))"
proof -
  have empty: "ws = [] \<longrightarrow> rerank_results self q rs = Inr rs"
    by (simp add: ws_def rerank_results_empty_query)
  have main: "\<exists>hs hs0. rerank_loop self q ws (length ws) rs [] = Inr hs0
              \<and> rerank_results self q rs = Inr hs
              \<and> length hs0 = length rs
              \<and> (\<forall>i < length rs.
                    hybrid_result self q ws (length ws) (rs ! i) = Inr (hs0 ! i)
                  \<and> map_of (hs0 ! i) ''score'' = Some (PyFloat
                       (calculate_hybrid_score self (semantic_of (rs ! i))
                          (calculate_keyword_score self q (text_of (rs ! i)))
                          (count_matched ws (str_lower (text_of (rs ! i)))) (length ws)))
                  \<and> score_key (hs0 ! i)
                      = calculate_hybrid_score self (semantic_of (rs ! i))
                          (calculate_keyword_score self q (text_of (rs ! i)))
                          (count_matched ws (str_lower (text_of (rs ! i)))) (length ws))
              \<and> sorted_wrt (\<lambda>a b. score_key b \<le> score_key a) hs
              \<and> (\<forall>v. filter (\<lambda>h. score_key h = v) hs = filter (\<lambda>h. score_key h = v) hs0)
              \<and> mset hs = mset hs0
              \<and> (\<forall>f limit filt. f q (max (limit * 4) 20) filt = Inr rs \<and> 0 \<le> limit \<longrightarrow>
                    search self q f limit filt = Inr (take (nat limit) hs))"
    if words: "ws \<noteq> []" and typed: "\<forall>r \<in> set rs. well_typed r"
  proof -
    let ?pre = "map (rescored self q ws (length ws)) rs"
    let ?out = "sort_desc score_key ?pre"
    have loop: "rerank_loop self q ws (length ws) rs [] = Inr ?pre"
      using typed by (simp add: rerank_loop_ok)
    have res: "rerank_results self q rs = Inr ?out"
      using rerank_results_ok [of q rs self] words typed by (simp add: ws_def)
    have len: "length ?pre = length rs" by simp
    have entry: "hybrid_result self q ws (length ws) (rs ! i) = Inr (?pre ! i)
                  \<and> map_of (?pre ! i) ''score'' = Some (PyFloat
                       (calculate_hybrid_score self (semantic_of (rs ! i))
                          (calculate_keyword_score self q (text_of (rs ! i)))
                          (count_matched ws (str_lower (text_of (rs ! i)))) (length ws)))
                  \<and> score_key (?pre ! i)
                      = calculate_hybrid_score self (semantic_of (rs ! i))
                          (calculate_keyword_score self q (text_of (rs ! i)))
                          (count_matched ws (str_lower (text_of (rs ! i)))) (length ws)"
      if i: "i < length rs" for i
    proof -
      from i typed have "well_typed (rs ! i)" by simp
      then have "hybrid_result self q ws (length ws) (rs ! i)
                   = Inr (rescored self q ws (length ws) (rs ! i))"
        by (rule hybrid_result_ok)
      with i show ?thesis
        by (simp add: map_of_rescored score_key_rescored hybrid_of_def)
    qed
    have sorted: "sorted_wrt (\<lambda>a b. score_key b \<le> score_key a) ?out"
      by (rule sort_desc_sorted)
    have stable: "\<forall>v. filter (\<lambda>h. score_key h = v) ?out = filter (\<lambda>h. score_key h = v) ?pre"
      by (simp add: sort_desc_stable)
    have perm: "mset ?out = mset ?pre" by (simp add: sort_desc_def)
    have trunc: "search self q f limit filt = Inr (take (nat limit) ?out)"
      if f: "f q (max (limit * 4) 20) filt = Inr rs" and lim: "0 \<le> limit" for f limit filt
    proof (cases "rs = []")
      case True
      with f show ?thesis by (simp add: search_def Let_def sort_desc_def)
    next
      case False
      with f res lim show ?thesis by (simp add: search_def Let_def slice_to_def)
    qed
    from loop res len entry sorted stable perm trunc show ?thesis by blast
  qed
  from empty main show ?thesis by blast
qed

text \<open>Two hits of the same hybrid score for the query \<open>alpha\<close>, and one of a higher score.\<close>

definition tie_first :: pydict where
  "tie_first = [(''id'', PyStr ''t1''), (''score'', PyFloat 0.5), (''text'', PyStr ''Beta one'')]"

definition tie_second :: pydict where
  "tie_second = [(''id'', PyStr ''t2''), (''score'', PyFloat 0.5), (''text'', PyStr ''Beta two'')]"

theorem rerank_sorted_stable_truncated_witness:
  "str_split (str_lower ''alpha'') \<noteq> []
   \<and> well_typed tie_first \<and> well_typed tie_second \<and> well_typed hit_high
   \<and> top_k [tie_first, tie_second, hit_high] ''alpha'' (max (2 * 4) 20) None
       = Inr [tie_first, tie_second, hit_high]
   \<and> (\<exists>hs hs0. rerank_results hybrid_search_engine ''alpha'' [tie_first, tie_second, hit_high]
                  = Inr hs
         \<and> map score_key hs0 = [0.35, 0.35, 0.94]
         \<and> sorted_wrt (\<lambda>a b. score_key b \<le> score_key a) hs
         \<and> filter (\<lambda>h. score_key h = 0.35) hs = [hs0 ! 0, hs0 ! 1]
         \<and> search hybrid_search_engine ''alpha'' (top_k [tie_first, tie_second, hit_high]) 2 None
             = Inr (take 2 hs))
   \<and> str_split (str_lower ''  '') = []
   \<and> rerank_results hybrid_search_engine ''  '' [hit_low, hit_high] = Inr [hit_low, hit_high]"
proof -
  let ?rs = "[tie_first, tie_second, hit_high]"
  have ql: "str_lower ''alpha'' = ''alpha''" by code_simp
  have ws: "str_split ''alpha'' = [''alpha'']" by code_simp
  have words: "str_split (str_lower ''alpha'') \<noteq> []" by (simp add: ql ws)
  have nowords: "str_split (str_lower ''  '') = []" by code_simp
  have w1: "well_typed tie_first" by (simp add: well_typed_def tie_first_def dict_get_def)
  have w2: "well_typed tie_second" by (simp add: well_typed_def tie_second_def dict_get_def)
  have wh: "well_typed hit_high" by (simp add: well_typed_def hit_high_def dict_get_def)
  have typed: "\<forall>r \<in> set ?rs. well_typed r" using w1 w2 wh by simp
  have over: "top_k ?rs ''alpha'' (max (2 * 4) 20) None = Inr ?rs"
    by (simp add: top_k_def slice_to_def)
  have s0: "calculate_hybrid_score hybrid_search_engine (semantic_of tie_first)
              (calculate_keyword_score hybrid_search_engine ''alpha'' (text_of tie_first))
              (count_matched [''alpha''] (str_lower (text_of tie_first))) 1 = 0.35"
    by code_simp
  have s1: "calculate_hybrid_score hybrid_search_engine (semantic_of tie_second)
              (calculate_keyword_score hybrid_search_engine ''alpha'' (text_of tie_second))
              (count_matched [''alpha''] (str_lower (text_of tie_second))) 1 = 0.35"
    by code_simp
  have s2: "calculate_hybrid_score hybrid_search_engine (semantic_of hit_high)
              (calculate_keyword_score hybrid_search_engine ''alpha'' (text_of hit_high))
              (count_matched [''alpha''] (str_lower (text_of hit_high))) 1 = 0.94"
    by code_simp
  note t = rerank_sorted_stable_truncated [of "''alpha''" hybrid_search_engine ?rs,
      unfolded ql ws]
  note u = rerank_sorted_stable_truncated [of "''  ''" hybrid_search_engine "[hit_low, hit_high]"]
  have ne: "[''alpha''] \<noteq> []" by simp
  from t ne typed obtain hs hs0 where
    res: "rerank_results hybrid_search_engine ''alpha'' ?rs = Inr hs"
    and len: "length hs0 = length ?rs"
    and entry: "\<forall>i < length ?rs.
                  score_key (hs0 ! i)
                    = calculate_hybrid_score hybrid_search_engine (semantic_of (?rs ! i))
                        (calculate_keyword_score hybrid_search_engine ''alpha'' (text_of (?rs ! i)))
                        (count_matched [''alpha''] (str_lower (text_of (?rs ! i))))
                        (length [''alpha''])"
    and sorted: "sorted_wrt (\<lambda>a b. score_key b \<le> score_key a) hs"
    and stable: "\<forall>v. filter (\<lambda>h. score_key h = v) hs = filter (\<lambda>h. score_key h = v) hs0"
    and trunc: "\<forall>f limit filt. f ''alpha'' (max (limit * 4) 20) filt = Inr ?rs
                   \<and> 0 \<le> limit \<longrightarrow>
                 search hybrid_search_engine ''alpha'' f limit filt = Inr (take (nat limit) hs)"
    by blast
  from len obtain a b c where hs0: "hs0 = [a, b, c]"
    by (cases hs0; cases "tl hs0"; cases "tl (tl hs0)") auto
  from entry s0 have k0: "score_key a = 0.35" by (auto simp: hs0)
  have i1: "(1::nat) < length ?rs" by simp
  from entry i1 have "score_key (hs0 ! 1)
                    = calculate_hybrid_score hybrid_search_engine (semantic_of (?rs ! 1))
                        (calculate_keyword_score hybrid_search_engine ''alpha'' (text_of (?rs ! 1)))
                        (count_matched [''alpha''] (str_lower (text_of (?rs ! 1))))
                        (length [''alpha''])" by blast
  with s1 have k1: "score_key b = 0.35" by (simp add: hs0)
  have i2: "(2::nat) < length ?rs" by simp
  from entry i2 have "score_key (hs0 ! 2)
                    = calculate_hybrid_score hybrid_search_engine (semantic_of (?rs ! 2))
                        (calculate_keyword_score hybrid_search_engine ''alpha'' (text_of (?rs ! 2)))
                        (count_matched [''alpha''] (str_lower (text_of (?rs ! 2))))
                        (length [''alpha''])" by blast
  with s2 have k2: "score_key c = 0.94" by (simp add: hs0)
  from k0 k1 k2 have keys: "map score_key hs0 = [0.35, 0.35, 0.94]" by (simp add: hs0)
  from stable have "filter (\<lambda>h. score_key h = 0.35) hs = filter (\<lambda>h. score_key h = 0.35) hs0"
    by blast
  with k0 k1 k2 have ties: "filter (\<lambda>h. score_key h = 0.35) hs = [hs0 ! 0, hs0 ! 1]"
    by (simp add: hs0)
  from trunc over have
    "search hybrid_search_engine ''alpha'' (top_k ?rs) 2 None = Inr (take (nat 2) hs)"
    by (metis zero_le_numeral)
  then have s: "search hybrid_search_engine ''alpha'' (top_k ?rs) 2 None = Inr (take 2 hs)"
    by simp
  from u nowords have
    e: "rerank_results hybrid_search_engine ''  '' [hit_low, hit_high] = Inr [hit_low, hit_high]"
    by blast
  have ex: "\<exists>hs hs0. rerank_results hybrid_search_engine ''alpha'' ?rs = Inr hs
         \<and> map score_key hs0 = [0.35, 0.35, 0.94]
         \<and> sorted_wrt (\<lambda>a b. score_key b \<le> score_key a) hs
         \<and> filter (\<lambda>h. score_key h = 0.35) hs = [hs0 ! 0, hs0 ! 1]
         \<and> search hybrid_search_engine ''alpha'' (top_k ?rs) 2 None = Inr (take 2 hs)"
    by (rule exI [of _ hs], rule exI [of _ hs0]) (intro conjI res keys sorted ties s)
  show ?thesis
    by (intro conjI words w1 w2 wh over ex nowords e)
qed

text \<open>
  The claim as stated fails three times. With a query without words the list is returned
  as it is, here with the lower score first. With the limit \<open>-1\<close> the slice
  \<open>hybrid_results[:-1]\<close> drops the last entry only, so one result is returned. And on a
  result whose payload text is \<open>None\<close> re-ranking raises, so no ordering is returned.
\<close>

theorem rerank_sorted_stable_truncated_counterexample:
  "rerank_results hybrid_search_engine [] [hit_low, hit_high] = Inr [hit_low, hit_high]
   \<and> score_key hit_low < score_key hit_high
   \<and> search hybrid_search_engine ''alpha'' (top_k [hit_high, hit_low]) (- 1) None
       = Inr [[(''id'', PyStr ''b''), (''score'', PyFloat 0.94), (''text'', PyStr ''Alpha here''),
               (''semantic_score'', PyFloat 0.9), (''keyword_score'', PyFloat 1)]]
   \<and> rerank_results hybrid_search_engine ''alpha'' [bad_hit] = Inl AttributeError"
proof -
  have 1: "rerank_results hybrid_search_engine [] [hit_low, hit_high] = Inr [hit_low, hit_high]"
    by (simp add: rerank_results_def str_lower_def str_split_def)
  have 2: "score_key hit_low < score_key hit_high"
    by (simp add: score_key_def hit_low_def hit_high_def)
  have 3: "search hybrid_search_engine ''alpha'' (top_k [hit_high, hit_low]) (- 1) None
       = Inr [[(''id'', PyStr ''b''), (''score'', PyFloat 0.94), (''text'', PyStr ''Alpha here''),
               (''semantic_score'', PyFloat 0.9), (''keyword_score'', PyFloat 1)]]"
    by code_simp
  have 4: "rerank_results hybrid_search_engine ''alpha'' [bad_hit] = Inl AttributeError"
    by code_simp
  from 1 2 3 4 show ?thesis by blast
qed

section \<open>The fallback of search\<close>

text \<open>
  C7, as the code has it. When the over-fetching call raises, or when it returns results on
  which re-ranking raises, search drops that error and calls the semantic search function
  a second time, with the original limit; when that call returns a list, search returns
  that list. So search returns the original results cut to the limit whenever the second
  call returns exactly those.
\<close>

theorem search_fallback:
  "(f q (max (limit * 4) 20) filt = Inl e \<and> f q limit filt = Inr out
        \<longrightarrow> search self q f limit filt = Inr out)
   \<and> (f q (max (limit * 4) 20) filt = Inr rs \<and> rerank_results self q rs = Inl e
        \<and> f q limit filt = Inr out
        \<longrightarrow> search self q f limit filt = Inr out)
   \<and> (f q (max (limit * 4) 20) filt = Inr rs \<and> rerank_results self q rs = Inl e
        \<and> f q limit filt = Inr (slice_to limit rs)
        \<longrightarrow> search self q f limit filt = Inr (slice_to limit rs))"
proof -
  have 1: "f q (max (limit * 4) 20) filt = Inl e \<longrightarrow> search self q f limit filt = f q limit filt"
    by (simp add: search_def Let_def)
  have 2: "search self q f limit filt = f q limit filt"
    if f: "f q (max (limit * 4) 20) filt = Inr rs" and r: "rerank_results self q rs = Inl e"
  proof -
    have "rs \<noteq> []"
    proof
      assume "rs = []"
      then have "\<exists>hs. rerank_results self q rs = Inr hs"
        by (simp add: rerank_results_def Let_def)
      with r show False by simp
    qed
    with f r show ?thesis by (simp add: search_def Let_def)
  qed
  from 1 2 show ?thesis by metis
qed

theorem search_fallback_witness:
  "top_k [bad_hit, hit_high] ''alpha'' (max (1 * 4) 20) None = Inr [bad_hit, hit_high]
   \<and> rerank_results hybrid_search_engine ''alpha'' [bad_hit, hit_high] = Inl AttributeError
   \<and> top_k [bad_hit, hit_high] ''alpha'' 1 None = Inr (slice_to 1 [bad_hit, hit_high])
   \<and> search hybrid_search_engine ''alpha'' (top_k [bad_hit, hit_high]) 1 None = Inr [bad_hit]"
proof -
  have over: "top_k [bad_hit, hit_high] ''alpha'' (max (1 * 4) 20) None = Inr [bad_hit, hit_high]"
    by (simp add: top_k_def slice_to_def)
  have raises: "rerank_results hybrid_search_engine ''alpha'' [bad_hit, hit_high]
                  = Inl AttributeError"
    by code_simp
  have again: "top_k [bad_hit, hit_high] ''alpha'' 1 None = Inr (slice_to 1 [bad_hit, hit_high])"
    by (simp add: top_k_def)
  from search_fallback [of "top_k [bad_hit, hit_high]" "''alpha''" 1 None AttributeError
      "slice_to 1 [bad_hit, hit_high]" hybrid_search_engine "[bad_hit, hit_high]"]
    over raises again
  have "search hybrid_search_engine ''alpha'' (top_k [bad_hit, hit_high]) 1 None
          = Inr (slice_to 1 [bad_hit, hit_high])"
    by blast
  then have s: "search hybrid_search_engine ''alpha'' (top_k [bad_hit, hit_high]) 1 None
                  = Inr [bad_hit]"
    by (simp add: slice_to_def)
  from over raises again s show ?thesis by blast
qed

text \<open>
  The claim as stated fails: re-ranking raises on the over-fetched results, and search
  returns what the second call returns, here the empty list, not the original results cut
  to the limit.
\<close>

theorem search_fallback_counterexample:
  "empty_after ''alpha'' (max (5 * 4) 20) None = Inr [bad_hit]
   \<and> rerank_results hybrid_search_engine ''alpha'' [bad_hit] = Inl AttributeError
   \<and> slice_to 5 [bad_hit] = [bad_hit]
   \<and> search hybrid_search_engine ''alpha'' empty_after 5 None = Inr []"
proof -
  have 2: "empty_after ''alpha'' (max (5 * 4) 20) None = Inr [bad_hit]"
    by (simp add: empty_after_def)
  have 3: "rerank_results hybrid_search_engine ''alpha'' [bad_hit] = Inl AttributeError"
    by code_simp
  have 4: "slice_to 5 [bad_hit] = [bad_hit]" by (simp add: slice_to_def)
  have 6: "search hybrid_search_engine ''alpha'' empty_after 5 None = Inr []"
    using 2 3 by (simp add: search_def Let_def empty_after_def bad_hit_def)
  from 2 3 4 6 show ?thesis by blast
qed

section \<open>More string primitives\<close>

text \<open>\<open>c.isalnum()\<close> for a code point below 256.\<close>

definition isalnum :: "char \<Rightarrow> bool" where
  "isalnum c = (let n = of_char c :: nat in
     (48 \<le> n \<and> n \<le> 57) \<or> (65 \<le> n \<and> n \<le> 90) \<or> (97 \<le> n \<and> n \<le> 122)
     \<or> n \<in> {170, 178, 179, 181, 185, 186, 188, 189, 190}
     \<or> (192 \<le> n \<and> n \<noteq> 215 \<and> n \<noteq> 247))"

text \<open>\<open>s.strip()\<close> and \<open>s.strip(c)\<close>\<close>

definition str_strip :: "string \<Rightarrow> string" where
  "str_strip s = rev (dropWhile isspace (rev (dropWhile isspace s)))"

definition strip_char :: "char \<Rightarrow> string \<Rightarrow> string" where
  "strip_char c s = rev (dropWhile (\<lambda>x. x = c) (rev (dropWhile (\<lambda>x. x = c) s)))"

text \<open>\<open>s.split(c)[-1]\<close>: what follows the last \<open>c\<close>.\<close>

definition last_segment :: "char \<Rightarrow> string \<Rightarrow> string" where
  "last_segment c s = rev (takeWhile (\<lambda>x. x \<noteq> c) (rev s))"

text \<open>\<open>str(n)\<close> for a natural number.\<close>

fun str_of_nat :: "nat \<Rightarrow> string" where
  "str_of_nat n =
     (if n < 10 then [char_of (48 + n)]
      else str_of_nat (n div 10) @ [char_of (48 + n mod 10)])"

declare str_of_nat.simps [simp del]

section \<open>The PDF processor (utils/pdf\_processor.py)\<close>

text \<open>
  What lies outside the repository is a parameter of the model: the clock, the
  identifiers, the PDF reader, the text splitters, the browser, and the failures of the
  vector store and of the embedding model. The file system and the relational store are
  taken to work.
\<close>

record point =
  point_text :: string
  point_document_id :: nat
  point_user_id :: "nat option"
  point_filename :: string
  point_chunk_index :: nat

record environment =
  timestamp :: string
  unique_id :: string
  db_now :: string
  connect_raises :: bool
  get_collections_raises :: bool
  collection_exists :: bool
  create_collection_raises :: bool
  load_model_raises :: bool
  encode_raises :: "string \<Rightarrow> bool"
  upsert_raises :: bool
  vector_query :: "int \<Rightarrow> (string \<times> real \<times> point) list option"
  read_pdf :: "string \<Rightarrow> string + string list"
  pdf_split_text :: "string \<Rightarrow> string list"
  url_split_text :: "string \<Rightarrow> string list"
  render :: "string + (bool \<times> string \<times> string)"

text \<open>
  \<open>read_pdf\<close> is PyPDF2: the message of the exception it raises, or the texts of the
  pages (empty for a page without text). \<open>render\<close> is the browser session of url\_to\_pdf:
  the message of an exception, or the extractor's \<open>(success, extracted_text)\<close> and the
  bytes of the printed PDF. \<open>vector_query\<close> is \<open>client.search\<close> for a limit: \<open>None\<close>
  when it raises, else the scored points as identifier, score and payload.
\<close>

fun pages_loop :: "(nat \<times> string) list \<Rightarrow> string \<Rightarrow> string" where
  "pages_loop [] text = text"
| "pages_loop ((page_num, page_text) # rest) text =
     (if page_text \<noteq> []
      then pages_loop rest
             (text @ [CHR 0x0A] @ ''--- Page '' @ str_of_nat (page_num + 1) @ '' ---''
                @ [CHR 0x0A] @ page_text)
      else pages_loop rest text)"

text \<open>An exception is the \<open>Inl\<close> of its message.\<close>

definition extract_text_from_pdf :: "environment \<Rightarrow> string \<Rightarrow> string + string" where
  "extract_text_from_pdf env pdf_content =
     (case read_pdf env pdf_content of
        Inl msg \<Rightarrow> Inl msg
      | Inr pages \<Rightarrow>
          (let text = pages_loop (enumerate 0 pages) []
           in if str_strip text = [] then Inl ''No text could be extracted from the PDF''
              else Inr (str_strip text)))"

text \<open>\<open>re.sub(r'\s+', ' ', text)\<close>\<close>

fun collapse_spaces :: "bool \<Rightarrow> string \<Rightarrow> string" where
  "collapse_spaces in_run [] = []"
| "collapse_spaces in_run (c # cs) =
     (if isspace c then (if in_run then collapse_spaces True cs
                         else CHR '' '' # collapse_spaces True cs)
      else c # collapse_spaces False cs)"

text \<open>\<open>text.replace('- ', '')\<close>\<close>

fun remove_hyphens :: "string \<Rightarrow> string" where
  "remove_hyphens (a # b # cs) =
     (if a = CHR ''-'' \<and> b = CHR '' '' then remove_hyphens cs else a # remove_hyphens (b # cs))"
| "remove_hyphens cs = cs"

text \<open>\<open>re.sub(r'([a-z])([A-Z])', r'\1 \2', text)\<close>\<close>

definition ascii_lower :: "char \<Rightarrow> bool" where
  "ascii_lower c = (97 \<le> (of_char c :: nat) \<and> (of_char c :: nat) \<le> 122)"

definition ascii_upper :: "char \<Rightarrow> bool" where
  "ascii_upper c = (65 \<le> (of_char c :: nat) \<and> (of_char c :: nat) \<le> 90)"

fun split_case_boundaries :: "string \<Rightarrow> string" where
  "split_case_boundaries (a # b # cs) =
     (if ascii_lower a \<and> ascii_upper b then a # CHR '' '' # b # split_case_boundaries cs
      else a # split_case_boundaries (b # cs))"
| "split_case_boundaries cs = cs"

definition clean_text :: "string \<Rightarrow> string" where
  "clean_text text =
     str_strip (split_case_boundaries (remove_hyphens (collapse_spaces False text)))"

definition chunk_text :: "environment \<Rightarrow> string \<Rightarrow> string list" where
  "chunk_text env text = pdf_split_text env (clean_text text)"

definition process_pdf_to_chunks :: "environment \<Rightarrow> string \<Rightarrow> string + string list" where
  "process_pdf_to_chunks env pdf_content =
     (case extract_text_from_pdf env pdf_content of
        Inl msg \<Rightarrow> Inl msg
      | Inr text \<Rightarrow> Inr (chunk_text env text))"

section \<open>The relational store and the vector store gateway\<close>

record document =
  filename :: string
  original_filename :: string
  file_path :: string
  file_size :: nat
  content_type :: "string option"
  user_id :: "nat option"
  created_at :: string
  vectorization_status :: string
  vectorization_error :: "string option"
  chunks_count :: nat

record document_chunk =
  chunk_document_id :: nat
  chunk_index :: nat
  text_content :: string
  vector_id :: "string option"

text \<open>
  The state: the upload directory, the two tables of models.py, the points of the
  collection (payloads; identifiers and vectors are left out), and the attributes of the
  global QdrantVectorClient.
\<close>

record system =
  files :: "string set"
  documents :: "nat \<rightharpoonup> document"
  document_chunks :: "document_chunk list"
  next_id :: nat
  points :: "point list"
  client :: bool
  collection_name :: "string option"
  embedding_model :: bool

definition connect :: "environment \<Rightarrow> system \<Rightarrow> bool \<times> system" where
  "connect env s = (if connect_raises env then (False, s) else (True, s\<lparr>client := True\<rparr>))"

definition load_embedding_model :: "environment \<Rightarrow> system \<Rightarrow> bool \<times> system" where
  "load_embedding_model env s =
     (if load_model_raises env then (False, s) else (True, s\<lparr>embedding_model := True\<rparr>))"

definition initialize_collection :: "environment \<Rightarrow> system \<Rightarrow> bool \<times> system" where
  "initialize_collection env s =
     (let s = s\<lparr>collection_name := Some ''KBCollection_LinkedIn''\<rparr>
      in if \<not> client s \<or> get_collections_raises env then (False, s)
         else if \<not> collection_exists env \<and> create_collection_raises env then (False, s)
         else (True, s))"

definition initialize_qdrant :: "environment \<Rightarrow> system \<Rightarrow> bool \<times> system" where
  "initialize_qdrant env s =
     (let (ok, s) = connect env s in
      if \<not> ok then (False, s)
      else (let (ok, s) = initialize_collection env s in
            if \<not> ok then (False, s)
            else (let (ok, s) = load_embedding_model env s in
                  if \<not> ok then (False, s) else (True, s))))"

text \<open>A document handed to insert\_documents: the dictionary the endpoints build.\<close>

record qdrant_doc =
  doc_text :: string
  doc_document_id :: nat
  doc_user_id :: "nat option"
  doc_filename :: string
  doc_chunk_index :: nat
  doc_created_at :: string

text \<open>The loop that embeds each text and builds its point; \<open>None\<close> when an embedding raises.\<close>

fun points_loop :: "environment \<Rightarrow> qdrant_doc list \<Rightarrow> point list \<Rightarrow> point list option" where
  "points_loop env [] pts = Some pts"
| "points_loop env (doc # rest) pts =
     (if encode_raises env (doc_text doc) then None
      else points_loop env rest
             (pts @ [\<lparr>point_text = doc_text doc, point_document_id = doc_document_id doc,
                      point_user_id = doc_user_id doc, point_filename = doc_filename doc,
                      point_chunk_index = doc_chunk_index doc\<rparr>]))"

definition insert_documents :: "environment \<Rightarrow> system \<Rightarrow> qdrant_doc list \<Rightarrow> bool \<times> system" where
  "insert_documents env s docs =
     (if \<not> client s \<or> \<not> embedding_model s then (False, s)
      else (case points_loop env docs [] of
              None \<Rightarrow> (False, s)
            | Some pts \<Rightarrow>
                if upsert_raises env then (False, s)
                else (True, s\<lparr>points := points s @ pts\<rparr>)))"

record search_hit =
  hit_id :: string
  hit_score :: real
  hit_text :: string
  hit_metadata :: point

text \<open>\<open>QdrantVectorClient.search\<close>: every exception ends in the empty list.\<close>

definition qdrant_search :: "environment \<Rightarrow> system \<Rightarrow> string \<Rightarrow> int \<Rightarrow> search_hit list" where
  "qdrant_search env s query_text limit =
     (if \<not> client s \<or> \<not> embedding_model s then []
      else if encode_raises env query_text then []
      else (case vector_query env limit of
              None \<Rightarrow> []
            | Some scored \<Rightarrow>
                map (\<lambda>(pid, score, payload).
                       \<lparr>hit_id = pid, hit_score = score, hit_text = point_text payload,
                        hit_metadata = payload\<rparr>) scored))"

section \<open>The endpoints (routers/document.py)\<close>

datatype http_error = HTTPException nat string

text \<open>\<open>str(e)\<close> for an HTTPException: the status code, a colon and the detail.\<close>

definition http_str :: "nat \<Rightarrow> string \<Rightarrow> string" where
  "http_str code detail = str_of_nat code @ '': '' @ detail"

record document_response =
  resp_id :: nat
  resp_filename :: string
  resp_original_filename :: string
  resp_file_size :: nat
  resp_content_type :: string
  resp_created_at :: string
  resp_vectorization_status :: string
  resp_chunks_count :: nat

record upload_file =
  upload_filename :: string
  upload_content :: string
  upload_content_type :: "string option"

definition UPLOAD_DIR :: string where
  "UPLOAD_DIR = ''uploads/pdfs''"

definition unique_filename :: "environment \<Rightarrow> string \<Rightarrow> string" where
  "unique_filename env name =
     timestamp env @ ''_'' @ unique_id env @ ''_''
       @ filter (\<lambda>c. isalnum c \<or> c \<in> set ''._-'') name"

text \<open>\<open>db.add(db_document); db.commit(); db.refresh(db_document)\<close>\<close>

definition db_add :: "system \<Rightarrow> document \<Rightarrow> nat \<times> system" where
  "db_add s doc =
     (next_id s, s\<lparr>documents := (documents s)(next_id s \<mapsto> doc), next_id := Suc (next_id s)\<rparr>)"

definition response_of :: "nat \<Rightarrow> document \<Rightarrow> document_response" where
  "response_of doc_id doc =
     \<lparr>resp_id = doc_id, resp_filename = filename doc,
      resp_original_filename = original_filename doc, resp_file_size = file_size doc,
      resp_content_type = (case content_type doc of None \<Rightarrow> ''application/pdf'' | Some t \<Rightarrow>
                             if t = [] then ''application/pdf'' else t),
      resp_created_at = created_at doc,
      resp_vectorization_status = vectorization_status doc,
      resp_chunks_count = chunks_count doc\<rparr>"

text \<open>\<open>for i, chunk in enumerate(chunks): documents_for_qdrant.append({...})\<close>\<close>

definition documents_for_qdrant :: "nat \<Rightarrow> string \<Rightarrow> string \<Rightarrow> string list \<Rightarrow> qdrant_doc list" where
  "documents_for_qdrant doc_id name created chunks =
     map (\<lambda>(i, chunk). \<lparr>doc_text = chunk, doc_document_id = doc_id, doc_user_id = None,
                           doc_filename = name, doc_chunk_index = i, doc_created_at = created\<rparr>)
       (enumerate 0 chunks)"

text \<open>
  The inner \<open>try\<close> block of upload\_pdf: the message of the exception raised in it, or the
  number of chunks inserted.
\<close>

definition vectorize_pdf :: "environment \<Rightarrow> system \<Rightarrow> nat \<Rightarrow> document \<Rightarrow> string
    \<Rightarrow> (string + nat) \<times> system" where
  "vectorize_pdf env s doc_id db_document file_content =
     (let (ok, s) = initialize_qdrant env s in
      if \<not> ok then (Inl ''Failed to initialize Qdrant'', s)
      else (case process_pdf_to_chunks env file_content of
              Inl msg \<Rightarrow> (Inl msg, s)
            | Inr chunks \<Rightarrow>
                (let (inserted, s) = insert_documents env s
                        (documents_for_qdrant doc_id (original_filename db_document)
                           (created_at db_document) chunks)
                 in if inserted then (Inr (length chunks), s)
                    else (Inl ''Failed to insert documents into Qdrant'', s))))"

definition upload_pdf :: "environment \<Rightarrow> system \<Rightarrow> upload_file
    \<Rightarrow> (http_error + document_response) \<times> system" where
  "upload_pdf env s file =
     (if \<not> suffix ''.pdf'' (str_lower (upload_filename file))
      then (Inl (HTTPException 400 ''Only PDF files are allowed''), s)
      else
        (let file_content = upload_content file;
             new_filename = unique_filename env (upload_filename file);
             path = UPLOAD_DIR @ ''/'' @ new_filename;
             s = s\<lparr>files := insert path (files s)\<rparr>;
             db_document = \<lparr>filename = new_filename,
                            original_filename = upload_filename file,
                            file_path = path, file_size = length file_content,
                            content_type = upload_content_type file, user_id = None,
                            created_at = db_now env, vectorization_status = ''pending'',
                            vectorization_error = None, chunks_count = 0\<rparr>;
             (doc_id, s) = db_add s db_document;
             (outcome, s) = vectorize_pdf env s doc_id db_document file_content
         in case outcome of
              Inr n \<Rightarrow>
                (let db_document = db_document\<lparr>vectorization_status := ''completed'',
                                                chunks_count := n\<rparr>;
                     s = s\<lparr>documents := (documents s)(doc_id \<mapsto> db_document)\<rparr>
                 in (Inr (response_of doc_id db_document), s))
            | Inl msg \<Rightarrow>
                (let s = s\<lparr>files := files s - {path}\<rparr>;
                     s = s\<lparr>documents := (documents s)(doc_id := None)\<rparr>
                 in (Inl (HTTPException 500
                       (''Upload failed: '' @ http_str 500
                          (''Database error: '' @ http_str 500
                             (''PDF processing failed: '' @ msg)))), s))))"

text \<open>
  \<open>create_pdf_document_without_vectorization\<close>: a record in the failed state with the
  given reason.
\<close>

definition create_pdf_document_without_vectorization ::
    "environment \<Rightarrow> system \<Rightarrow> string \<Rightarrow> string \<Rightarrow> string
     \<Rightarrow> (http_error + document_response) \<times> system" where
  "create_pdf_document_without_vectorization env s pdf_content name error_reason =
     (let new_filename = unique_filename env name;
          path = UPLOAD_DIR @ ''/'' @ new_filename;
          s = s\<lparr>files := insert path (files s)\<rparr>;
          db_document = \<lparr>filename = new_filename, original_filename = name,
                         file_path = path, file_size = length pdf_content,
                         content_type = Some ''application/pdf'', user_id = None,
                         created_at = db_now env, vectorization_status = ''failed'',
                         vectorization_error = Some error_reason, chunks_count = 0\<rparr>;
          (doc_id, s) = db_add s db_document
      in (Inr (response_of doc_id db_document), s))"

record url_request =
  url_netloc :: string
  url_path :: string

definition generated_filename :: "url_request \<Rightarrow> string" where
  "generated_filename req =
     (let base_name = map (\<lambda>c. if c = CHR ''.'' then CHR ''_'' else c) (url_netloc req);
          segment = last_segment CHR ''/'' (strip_char CHR ''/'' (url_path req));
          path_part = (if segment = [] then ''webpage'' else segment);
          path_part = (if \<not> suffix ''.pdf'' (str_lower path_part) then path_part @ ''.pdf''
                       else path_part)
      in base_name @ ''_'' @ path_part)"

text \<open>The inner \<open>try\<close> block of url\_to\_pdf.\<close>

definition vectorize_url :: "environment \<Rightarrow> system \<Rightarrow> nat \<Rightarrow> document \<Rightarrow> string
    \<Rightarrow> (string + nat) \<times> system" where
  "vectorize_url env s doc_id db_document extracted_text =
     (let (ok, s) = initialize_qdrant env s in
      if \<not> ok then (Inl ''Failed to initialize Qdrant'', s)
      else (let chunks = url_split_text env extracted_text;
                (inserted, s) = insert_documents env s
                   (documents_for_qdrant doc_id (original_filename db_document)
                      (created_at db_document) chunks)
            in if inserted then (Inr (length chunks), s)
               else (Inl ''Failed to insert documents into Qdrant'', s)))"

text \<open>
  \<open>url_to_pdf\<close>. The temporary file that holds the printed PDF is not part of the state.
  The handler that falls back to create\_pdf\_document\_without\_vectorization after an
  exception while saving the blob or the record has no branch here, since the file system
  and the relational store are taken to work.
\<close>

definition url_to_pdf :: "environment \<Rightarrow> system \<Rightarrow> url_request
    \<Rightarrow> (http_error + document_response) \<times> system" where
  "url_to_pdf env s req =
     (case render env of
        Inl msg \<Rightarrow> (Inl (HTTPException 500 (''Failed to process URL: '' @ msg)), s)
      | Inr (success, text, pdf_content) \<Rightarrow>
          (let name = generated_filename req;
               extracted_text = (if \<not> success then [] else text)
           in if extracted_text \<noteq> [] \<and> 100 < length extracted_text then
                (let new_filename = unique_filename env name;
                     path = UPLOAD_DIR @ ''/'' @ new_filename;
                     s = s\<lparr>files := insert path (files s)\<rparr>;
                     db_document = \<lparr>filename = new_filename, original_filename = name,
                                    file_path = path, file_size = length pdf_content,
                                    content_type = Some ''application/pdf'', user_id = None,
                                    created_at = db_now env,
                                    vectorization_status = ''pending'',
                                    vectorization_error = None, chunks_count = 0\<rparr>;
                     (doc_id, s) = db_add s db_document;
                     (outcome, s) = vectorize_url env s doc_id db_document extracted_text;
                     db_document = (case outcome of
                         Inr n \<Rightarrow> db_document\<lparr>vectorization_status := ''completed'',
                                                  chunks_count := n\<rparr>
                       | Inl msg \<Rightarrow> db_document\<lparr>vectorization_status := ''failed'',
                                                    vectorization_error := Some msg\<rparr>);
                     s = s\<lparr>documents := (documents s)(doc_id \<mapsto> db_document)\<rparr>
                 in (Inr (response_of doc_id db_document), s))
              else create_pdf_document_without_vectorization env s pdf_content name
                     ''No substantial text content could be extracted from the webpage''))"

record result_row =
  row_document_id :: nat
  row_filename :: string
  row_chunk_index :: nat
  row_text :: string
  row_confidence :: real
  row_created_at :: string

record search_response =
  resp_query :: string
  resp_results :: "result_row list"
  resp_total_results :: nat
  resp_message :: "string option"

text \<open>The loop that formats the hits; a hit below the confidence or without a record is skipped.\<close>

fun format_loop :: "system \<Rightarrow> real option \<Rightarrow> search_hit list \<Rightarrow> result_row list
    \<Rightarrow> result_row list" where
  "format_loop s min_confidence [] formatted_results = formatted_results"
| "format_loop s min_confidence (result # rest) formatted_results =
     (if (case min_confidence of None \<Rightarrow> False
          | Some m \<Rightarrow> m \<noteq> 0 \<and> hit_score result < m)
      then format_loop s min_confidence rest formatted_results
      else (let doc_id = point_document_id (hit_metadata result)
            in if doc_id \<noteq> 0 then
                 (case documents s doc_id of
                    Some doc \<Rightarrow>
                      format_loop s min_confidence rest
                        (formatted_results @
                           [\<lparr>row_document_id = doc_id, row_filename = original_filename doc,
                             row_chunk_index = point_chunk_index (hit_metadata result),
                             row_text = hit_text result, row_confidence = hit_score result,
                             row_created_at = created_at doc\<rparr>])
                  | None \<Rightarrow> format_loop s min_confidence rest formatted_results)
               else format_loop s min_confidence rest formatted_results))"

definition search_documents :: "environment \<Rightarrow> system \<Rightarrow> string \<Rightarrow> int \<Rightarrow> real option
    \<Rightarrow> (http_error + search_response) \<times> system" where
  "search_documents env s query limit min_confidence =
     (let (ok, s) = initialize_qdrant env s in
      if \<not> ok then (Inl (HTTPException 500 ''Vector search service unavailable''), s)
      else (let search_results = qdrant_search env s query limit
            in if search_results = []
               then (Inr \<lparr>resp_query = query, resp_results = [], resp_total_results = 0,
                          resp_message = Some ''No results found''\<rparr>, s)
               else (let formatted_results = format_loop s min_confidence search_results []
                     in (Inr \<lparr>resp_query = query, resp_results = formatted_results,
                              resp_total_results = length formatted_results,
                              resp_message = None\<rparr>, s))))"

section \<open>Properties of the gateway\<close>

text \<open>Every step of the lazy initialisation succeeds.\<close>

definition init_succeeds :: "environment \<Rightarrow> bool" where
  "init_succeeds env =
     (\<not> connect_raises env \<and> \<not> get_collections_raises env
      \<and> (collection_exists env \<or> \<not> create_collection_raises env)
      \<and> \<not> load_model_raises env)"

text \<open>The upsert stage fails on these chunks: an embedding raises, or the upsert does.\<close>

definition upsert_fails :: "environment \<Rightarrow> string list \<Rightarrow> bool" where
  "upsert_fails env chunks = (upsert_raises env \<or> (\<exists>c \<in> set chunks. encode_raises env c))"

definition point_of :: "qdrant_doc \<Rightarrow> point" where
  "point_of doc = \<lparr>point_text = doc_text doc, point_document_id = doc_document_id doc,
                   point_user_id = doc_user_id doc, point_filename = doc_filename doc,
                   point_chunk_index = doc_chunk_index doc\<rparr>"

definition initialized :: "system \<Rightarrow> system" where
  "initialized s = s\<lparr>client := True, collection_name := Some ''KBCollection_LinkedIn'',
                      embedding_model := True\<rparr>"

lemma initialize_qdrant_ok:
  "init_succeeds env \<Longrightarrow> initialize_qdrant env s = (True, initialized s)"
  by (auto simp: init_succeeds_def initialize_qdrant_def connect_def initialize_collection_def
      load_embedding_model_def initialized_def Let_def)

lemma initialize_qdrant_fails:
  "\<not> init_succeeds env \<Longrightarrow> fst (initialize_qdrant env s) = False"
  by (auto simp: init_succeeds_def initialize_qdrant_def connect_def initialize_collection_def
      load_embedding_model_def Let_def)

lemma initialize_qdrant_frame:
  assumes "initialize_qdrant env s = (ok, s')"
  shows "files s' = files s \<and> documents s' = documents s
       \<and> document_chunks s' = document_chunks s \<and> next_id s' = next_id s
       \<and> points s' = points s"
  using assms
  by (auto simp: initialize_qdrant_def connect_def initialize_collection_def
      load_embedding_model_def Let_def split: if_splits)

lemma points_loop_eq:
  "points_loop env docs pts =
     (if \<exists>d \<in> set docs. encode_raises env (doc_text d) then None
      else Some (pts @ map point_of docs))"
  by (induction docs arbitrary: pts) (auto simp: point_of_def)

lemma insert_documents_eq:
  assumes "client s" and "embedding_model s"
  shows "insert_documents env s docs =
           (if upsert_raises env \<or> (\<exists>d \<in> set docs. encode_raises env (doc_text d))
            then (False, s) else (True, s\<lparr>points := points s @ map point_of docs\<rparr>))"
  using assms by (auto simp: insert_documents_def points_loop_eq)

lemma insert_documents_frame:
  assumes "insert_documents env s docs = (ok, s')"
  shows "files s' = files s \<and> documents s' = documents s
       \<and> document_chunks s' = document_chunks s \<and> next_id s' = next_id s
       \<and> (\<not> ok \<longrightarrow> points s' = points s)"
  using assms
  by (auto simp: insert_documents_def split: if_splits option.splits)

lemma documents_for_qdrant_texts:
  "map doc_text (documents_for_qdrant doc_id name created chunks) = chunks"
  by (simp add: documents_for_qdrant_def enumerate_eq_zip case_prod_unfold o_def)

lemma documents_for_qdrant_indices:
  "map doc_chunk_index (documents_for_qdrant doc_id name created chunks) = [0..<length chunks]"
  by (simp add: documents_for_qdrant_def enumerate_eq_zip case_prod_unfold o_def)

lemma documents_for_qdrant_ids:
  "d \<in> set (documents_for_qdrant doc_id name created chunks) \<Longrightarrow> doc_document_id d = doc_id"
  by (auto simp: documents_for_qdrant_def)

lemma documents_for_qdrant_fails:
  "(upsert_raises env \<or> (\<exists>d \<in> set (documents_for_qdrant doc_id name created chunks).
       encode_raises env (doc_text d))) = upsert_fails env chunks"
proof -
  have "set (map doc_text (documents_for_qdrant doc_id name created chunks)) = set chunks"
    by (simp only: documents_for_qdrant_texts)
  then have "(\<exists>d \<in> set (documents_for_qdrant doc_id name created chunks).
       encode_raises env (doc_text d)) = (\<exists>c \<in> set chunks. encode_raises env c)"
    by (metis (no_types, lifting) image_iff list.set_map)
  then show ?thesis by (simp add: upsert_fails_def)
qed

text \<open>The points that a successful upsert of these chunks adds.\<close>

definition new_points :: "nat \<Rightarrow> string \<Rightarrow> string \<Rightarrow> string list \<Rightarrow> point list" where
  "new_points doc_id name created chunks =
     map point_of (documents_for_qdrant doc_id name created chunks)"

lemma new_points_props:
  "map point_text (new_points doc_id name created chunks) = chunks"
  "map point_chunk_index (new_points doc_id name created chunks) = [0..<length chunks]"
  "p \<in> set (new_points doc_id name created chunks) \<Longrightarrow> point_document_id p = doc_id"
proof -
  have t: "point_text \<circ> point_of = doc_text" by (auto simp: point_of_def)
  have i: "point_chunk_index \<circ> point_of = doc_chunk_index" by (auto simp: point_of_def)
  show "map point_text (new_points doc_id name created chunks) = chunks"
    by (simp add: new_points_def t documents_for_qdrant_texts)
  show "map point_chunk_index (new_points doc_id name created chunks) = [0..<length chunks]"
    by (simp add: new_points_def i documents_for_qdrant_indices)
  show "p \<in> set (new_points doc_id name created chunks) \<Longrightarrow> point_document_id p = doc_id"
    by (auto simp: new_points_def point_of_def documents_for_qdrant_ids)
qed

lemma initialized_fields:
  "client (initialized s)" "embedding_model (initialized s)"
  "files (initialized s) = files s" "documents (initialized s) = documents s"
  "document_chunks (initialized s) = document_chunks s" "next_id (initialized s) = next_id s"
  "points (initialized s) = points s"
  by (simp_all add: initialized_def)

section \<open>Properties of the vectorization blocks\<close>

lemma vectorize_pdf_ok:
  assumes "init_succeeds env" and "process_pdf_to_chunks env content = Inr chunks"
    and "\<not> upsert_fails env chunks"
  shows "vectorize_pdf env s doc_id doc content =
           (Inr (length chunks),
            (initialized s)\<lparr>points := points s
               @ new_points doc_id (original_filename doc) (created_at doc) chunks\<rparr>)"
  using assms documents_for_qdrant_fails [of env doc_id "original_filename doc" "created_at doc" chunks]
  by (simp add: vectorize_pdf_def initialize_qdrant_ok insert_documents_eq initialized_fields
      new_points_def)

lemma vectorize_pdf_insert_fails:
  assumes "init_succeeds env" and "process_pdf_to_chunks env content = Inr chunks"
    and "upsert_fails env chunks"
  shows "vectorize_pdf env s doc_id doc content =
           (Inl ''Failed to insert documents into Qdrant'', initialized s)"
  using assms documents_for_qdrant_fails [of env doc_id "original_filename doc" "created_at doc" chunks]
  by (simp add: vectorize_pdf_def initialize_qdrant_ok insert_documents_eq initialized_fields)


lemma vectorize_pdf_frame:
  assumes "vectorize_pdf env s doc_id doc content = (out, s')"
  shows "files s' = files s \<and> documents s' = documents s
       \<and> document_chunks s' = document_chunks s \<and> next_id s' = next_id s
       \<and> ((\<exists>msg. out = Inl msg) \<longrightarrow> points s' = points s)"
proof -
  obtain ok s1 where i: "initialize_qdrant env s = (ok, s1)" by (cases "initialize_qdrant env s")
  note f1 = initialize_qdrant_frame [OF i]
  show ?thesis
  proof (cases "ok \<and> (\<exists>chunks. process_pdf_to_chunks env content = Inr chunks)")
    case False
    with assms i f1 show ?thesis
      by (auto simp: vectorize_pdf_def split: sum.splits if_splits)
  next
    case True
    then obtain chunks where c: "process_pdf_to_chunks env content = Inr chunks" and ok: ok
      by blast
    obtain ins s2 where j: "insert_documents env s1
        (documents_for_qdrant doc_id (original_filename doc) (created_at doc) chunks) = (ins, s2)"
      by (cases "insert_documents env s1
        (documents_for_qdrant doc_id (original_filename doc) (created_at doc) chunks)")
    note f2 = insert_documents_frame [OF j]
    from assms i c ok j f1 f2 show ?thesis
      by (auto simp: vectorize_pdf_def split: if_splits)
  qed
qed

lemma vectorize_url_ok:
  assumes "init_succeeds env" and "\<not> upsert_fails env (url_split_text env text)"
  shows "vectorize_url env s doc_id doc text =
           (Inr (length (url_split_text env text)),
            (initialized s)\<lparr>points := points s
               @ new_points doc_id (original_filename doc) (created_at doc)
                   (url_split_text env text)\<rparr>)"
  using assms documents_for_qdrant_fails [of env doc_id "original_filename doc" "created_at doc"
      "url_split_text env text"]
  by (simp add: vectorize_url_def initialize_qdrant_ok insert_documents_eq initialized_fields
      new_points_def Let_def)

lemma vectorize_url_insert_fails:
  assumes "init_succeeds env" and "upsert_fails env (url_split_text env text)"
  shows "vectorize_url env s doc_id doc text =
           (Inl ''Failed to insert documents into Qdrant'', initialized s)"
  using assms documents_for_qdrant_fails [of env doc_id "original_filename doc" "created_at doc"
      "url_split_text env text"]
  by (simp add: vectorize_url_def initialize_qdrant_ok insert_documents_eq initialized_fields
      Let_def)



section \<open>Example environments and requests\<close>

definition env_ok :: environment where
  "env_ok = \<lparr>timestamp = ''20240101_120000'', unique_id = ''u1'',
             db_now = ''2024-01-01 12:00:00'',
             connect_raises = False, get_collections_raises = False,
             collection_exists = True, create_collection_raises = False,
             load_model_raises = False, encode_raises = (\<lambda>t. False), upsert_raises = False,
             vector_query = (\<lambda>k. Some []),
             read_pdf = (\<lambda>b. Inr [''Hello world'', ''Second page'']),
             pdf_split_text = (\<lambda>t. [take 20 t, drop 20 t]),
             url_split_text = (\<lambda>t. [t]),
             render = Inr (True, replicate 120 CHR ''a'', ''%PDF'')\<rparr>"

text \<open>The upsert raises; the PDF has one page without text; the vector query raises.\<close>

definition env_upsert_down :: environment where
  "env_upsert_down = env_ok\<lparr>upsert_raises := True\<rparr>"


definition env_query_down :: environment where
  "env_query_down = env_ok\<lparr>vector_query := (\<lambda>k. None)\<rparr>"


definition empty_system :: system where
  "empty_system = \<lparr>files = {}, documents = Map.empty, document_chunks = [], next_id = 1,
                   points = [], client = False, collection_name = None,
                   embedding_model = False\<rparr>"

definition report_pdf :: upload_file where
  "report_pdf = \<lparr>upload_filename = ''Report.pdf'', upload_content = ''%PDF'',
                 upload_content_type = Some ''application/pdf''\<rparr>"

definition blog_post :: url_request where
  "blog_post = \<lparr>url_netloc = ''example.com'', url_path = ''/blog/post''\<rparr>"


section \<open>Properties of the endpoints\<close>

text \<open>The path under which an upload of this name is stored.\<close>

definition stored_path :: "environment \<Rightarrow> string \<Rightarrow> string" where
  "stored_path env name = UPLOAD_DIR @ ''/'' @ unique_filename env name"

lemma upload_pdf_rollback:
  assumes pdf: "suffix ''.pdf'' (str_lower (upload_filename file))"
    and fail: "\<And>s' doc_id doc. \<exists>msg s''.
                 vectorize_pdf env s' doc_id doc (upload_content file) = (Inl msg, s'')"
  shows "(\<exists>detail. fst (upload_pdf env s file) = Inl (HTTPException 500 detail))
       \<and> documents (snd (upload_pdf env s file)) (next_id s) = None
       \<and> stored_path env (upload_filename file) \<notin> files (snd (upload_pdf env s file))
       \<and> document_chunks (snd (upload_pdf env s file)) = document_chunks s
       \<and> points (snd (upload_pdf env s file)) = points s"
proof -
  define path where "path = UPLOAD_DIR @ ''/'' @ unique_filename env (upload_filename file)"
  define doc where "doc = \<lparr>filename = unique_filename env (upload_filename file),
                            original_filename = upload_filename file,
                            file_path = path, file_size = length (upload_content file),
                            content_type = upload_content_type file, user_id = None,
                            created_at = db_now env, vectorization_status = ''pending'',
                            vectorization_error = None, chunks_count = 0\<rparr>"
  define s2 where "s2 = s\<lparr>files := insert path (files s),
                           documents := (documents s)(next_id s \<mapsto> doc),
                           next_id := Suc (next_id s)\<rparr>"
  from fail obtain msg s3
    where v: "vectorize_pdf env s2 (next_id s) doc (upload_content file) = (Inl msg, s3)"
    by blast
  from vectorize_pdf_frame [OF v]
  have fr: "document_chunks s3 = document_chunks s2" "points s3 = points s2" by auto
  have "upload_pdf env s file =
          (Inl (HTTPException 500
                 (''Upload failed: '' @ http_str 500
                    (''Database error: '' @ http_str 500 (''PDF processing failed: '' @ msg)))),
           s3\<lparr>files := files s3 - {path}, documents := (documents s3)(next_id s := None)\<rparr>)"
    using pdf v by (simp add: upload_pdf_def Let_def db_add_def path_def doc_def s2_def)
  with fr show ?thesis by (simp add: stored_path_def path_def s2_def)
qed

lemma upload_pdf_success:
  assumes pdf: "suffix ''.pdf'' (str_lower (upload_filename file))"
    and init: "init_succeeds env"
    and chunks: "process_pdf_to_chunks env (upload_content file) = Inr chunks"
    and ok: "\<not> upsert_fails env chunks"
  shows "\<exists>resp s' doc new. upload_pdf env s file = (Inr resp, s')
           \<and> resp_id resp = next_id s
           \<and> resp_vectorization_status resp = ''completed''
           \<and> resp_chunks_count resp = length chunks
           \<and> documents s' (next_id s) = Some doc
           \<and> vectorization_status doc = ''completed'' \<and> chunks_count doc = length chunks
           \<and> points s' = points s @ new
           \<and> map point_text new = chunks
           \<and> map point_chunk_index new = [0..<length chunks]
           \<and> (\<forall>p \<in> set new. point_document_id p = next_id s)
           \<and> document_chunks s' = document_chunks s"
proof -
  let ?new = "new_points (next_id s) (upload_filename file) (db_now env) chunks"
  have "\<exists>resp s' doc. upload_pdf env s file = (Inr resp, s')
           \<and> resp_id resp = next_id s
           \<and> resp_vectorization_status resp = ''completed''
           \<and> resp_chunks_count resp = length chunks
           \<and> documents s' (next_id s) = Some doc
           \<and> vectorization_status doc = ''completed'' \<and> chunks_count doc = length chunks
           \<and> points s' = points s @ ?new
           \<and> document_chunks s' = document_chunks s"
    using pdf
    by (simp add: upload_pdf_def Let_def db_add_def vectorize_pdf_ok [OF init chunks ok]
        initialized_def response_of_def)
  moreover have "map point_text ?new = chunks" by (rule new_points_props(1))
  moreover have "map point_chunk_index ?new = [0..<length chunks]"
    by (rule new_points_props(2))
  moreover have "\<forall>p \<in> set ?new. point_document_id p = next_id s"
    using new_points_props(3) by blast
  ultimately show ?thesis by blast
qed

lemma url_to_pdf_success:
  assumes r: "render env = Inr (True, txt, pdf_content)" and long: "100 < length txt"
    and init: "init_succeeds env"
    and ok: "\<not> upsert_fails env (url_split_text env txt)"
  shows "\<exists>resp s' doc new. url_to_pdf env s req = (Inr resp, s')
           \<and> resp_id resp = next_id s
           \<and> resp_vectorization_status resp = ''completed''
           \<and> resp_chunks_count resp = length (url_split_text env txt)
           \<and> documents s' (next_id s) = Some doc
           \<and> vectorization_status doc = ''completed''
           \<and> chunks_count doc = length (url_split_text env txt)
           \<and> points s' = points s @ new
           \<and> map point_text new = url_split_text env txt
           \<and> map point_chunk_index new = [0..<length (url_split_text env txt)]
           \<and> (\<forall>p \<in> set new. point_document_id p = next_id s)
           \<and> document_chunks s' = document_chunks s"
proof -
  let ?chunks = "url_split_text env txt"
  let ?new = "new_points (next_id s) (generated_filename req) (db_now env) ?chunks"
  from long have ne: "txt \<noteq> []" by auto
  have "\<exists>resp s' doc. url_to_pdf env s req = (Inr resp, s')
           \<and> resp_id resp = next_id s
           \<and> resp_vectorization_status resp = ''completed''
           \<and> resp_chunks_count resp = length ?chunks
           \<and> documents s' (next_id s) = Some doc
           \<and> vectorization_status doc = ''completed'' \<and> chunks_count doc = length ?chunks
           \<and> points s' = points s @ ?new
           \<and> document_chunks s' = document_chunks s"
    using r long ne
    by (simp add: url_to_pdf_def Let_def db_add_def vectorize_url_ok [OF init ok]
        initialized_def response_of_def)
  moreover have "map point_text ?new = ?chunks" by (rule new_points_props(1))
  moreover have "map point_chunk_index ?new = [0..<length ?chunks]"
    by (rule new_points_props(2))
  moreover have "\<forall>p \<in> set ?new. point_document_id p = next_id s"
    using new_points_props(3) by blast
  ultimately show ?thesis by blast
qed

lemma url_to_pdf_upsert_fails:
  assumes r: "render env = Inr (True, txt, pdf_content)" and long: "100 < length txt"
    and init: "init_succeeds env"
    and bad: "upsert_fails env (url_split_text env txt)"
  shows "\<exists>resp s' doc. url_to_pdf env s req = (Inr resp, s')
           \<and> resp_id resp = next_id s
           \<and> resp_vectorization_status resp = ''failed''
           \<and> documents s' (next_id s) = Some doc
           \<and> vectorization_status doc = ''failed''
           \<and> vectorization_error doc = Some ''Failed to insert documents into Qdrant''
           \<and> stored_path env (generated_filename req) \<in> files s'
           \<and> points s' = points s
           \<and> document_chunks s' = document_chunks s"
proof -
  from long have ne: "txt \<noteq> []" by auto
  show ?thesis
    using r long ne
    by (simp add: url_to_pdf_def Let_def db_add_def vectorize_url_insert_fails [OF init bad]
        initialized_def response_of_def stored_path_def)
qed


section \<open>Failure of the upsert stage\<close>

text \<open>
  C1, as the code has it. When the upsert stage fails in upload\_pdf, the call ends in an
  HTTP 500 error, and afterwards there is no Document record for the upload, its blob is
  gone, and neither the chunk table nor the collection has changed. When it fails in
  url\_to\_pdf, the call returns normally: the Document record stays, in the failed state
  with the error text, and so does its blob; the chunk table and the collection are
  unchanged there too.
\<close>

theorem upsert_failure_outcomes:
  "(suffix ''.pdf'' (str_lower (upload_filename file)) \<and> init_succeeds env
      \<and> process_pdf_to_chunks env (upload_content file) = Inr chunks
      \<and> upsert_fails env chunks \<longrightarrow>
        (\<exists>detail. fst (upload_pdf env s file) = Inl (HTTPException 500 detail))
      \<and> documents (snd (upload_pdf env s file)) (next_id s) = None
      \<and> stored_path env (upload_filename file) \<notin> files (snd (upload_pdf env s file))
      \<and> document_chunks (snd (upload_pdf env s file)) = document_chunks s
      \<and> points (snd (upload_pdf env s file)) = points s)
   \<and> (render env = Inr (True, txt, pdf_content) \<and> 100 < length txt \<and> init_succeeds env
      \<and> upsert_fails env (url_split_text env txt) \<longrightarrow>
        (\<exists>resp s' doc. url_to_pdf env s req = (Inr resp, s')
           \<and> resp_id resp = next_id s
           \<and> resp_vectorization_status resp = ''failed''
           \<and> documents s' (next_id s) = Some doc
           \<and> vectorization_status doc = ''failed''
           \<and> vectorization_error doc = Some ''Failed to insert documents into Qdrant''
           \<and> stored_path env (generated_filename req) \<in> files s'
           \<and> points s' = points s
           \<and> document_chunks s' = document_chunks s))"
proof -
  have upload: "(\<exists>detail. fst (upload_pdf env s file) = Inl (HTTPException 500 detail))
      \<and> documents (snd (upload_pdf env s file)) (next_id s) = None
      \<and> stored_path env (upload_filename file) \<notin> files (snd (upload_pdf env s file))
      \<and> document_chunks (snd (upload_pdf env s file)) = document_chunks s
      \<and> points (snd (upload_pdf env s file)) = points s"
    if pdf: "suffix ''.pdf'' (str_lower (upload_filename file))" and init: "init_succeeds env"
      and chunks: "process_pdf_to_chunks env (upload_content file) = Inr chunks"
      and bad: "upsert_fails env chunks"
  proof (rule upload_pdf_rollback [OF pdf])
    fix s' doc_id doc
    show "\<exists>msg s''. vectorize_pdf env s' doc_id doc (upload_content file) = (Inl msg, s'')"
      using vectorize_pdf_insert_fails [OF init chunks bad] by blast
  qed
  have url: "\<exists>resp s' doc. url_to_pdf env s req = (Inr resp, s')
           \<and> resp_id resp = next_id s
           \<and> resp_vectorization_status resp = ''failed''
           \<and> documents s' (next_id s) = Some doc
           \<and> vectorization_status doc = ''failed''
           \<and> vectorization_error doc = Some ''Failed to insert documents into Qdrant''
           \<and> stored_path env (generated_filename req) \<in> files s'
           \<and> points s' = points s
           \<and> document_chunks s' = document_chunks s"
    if "render env = Inr (True, txt, pdf_content)" "100 < length txt" "init_succeeds env"
      "upsert_fails env (url_split_text env txt)"
    using that by (rule url_to_pdf_upsert_fails)
  from upload url show ?thesis by blast
qed

theorem upsert_failure_outcomes_witness:
  "suffix ''.pdf'' (str_lower (upload_filename report_pdf)) \<and> init_succeeds env_upsert_down
   \<and> process_pdf_to_chunks env_upsert_down (upload_content report_pdf)
       = Inr [''--Page 1 --Hello wor'', ''ld --Page 2 --Second page'']
   \<and> upsert_fails env_upsert_down [''--Page 1 --Hello wor'', ''ld --Page 2 --Second page'']
   \<and> (\<exists>detail. fst (upload_pdf env_upsert_down empty_system report_pdf)
         = Inl (HTTPException 500 detail))
   \<and> documents (snd (upload_pdf env_upsert_down empty_system report_pdf)) 1 = None
   \<and> stored_path env_upsert_down ''Report.pdf''
       \<notin> files (snd (upload_pdf env_upsert_down empty_system report_pdf))
   \<and> render env_upsert_down = Inr (True, replicate 120 CHR ''a'', ''%PDF'')
   \<and> upsert_fails env_upsert_down (url_split_text env_upsert_down (replicate 120 CHR ''a''))
   \<and> (\<exists>resp s'. url_to_pdf env_upsert_down empty_system blog_post = (Inr resp, s')
         \<and> resp_vectorization_status resp = ''failed'')"
proof -
  have pdf: "suffix ''.pdf'' (str_lower (upload_filename report_pdf))" by code_simp
  have init: "init_succeeds env_upsert_down"
    by (simp add: init_succeeds_def env_upsert_down_def env_ok_def)
  have chunks: "process_pdf_to_chunks env_upsert_down (upload_content report_pdf)
       = Inr [''--Page 1 --Hello wor'', ''ld --Page 2 --Second page'']"
    by code_simp
  have bad: "upsert_fails env_upsert_down [''--Page 1 --Hello wor'', ''ld --Page 2 --Second page'']"
    by (simp add: upsert_fails_def env_upsert_down_def)
  have r: "render env_upsert_down = Inr (True, replicate 120 CHR ''a'', ''%PDF'')"
    by (simp add: env_upsert_down_def env_ok_def)
  have long: "100 < length (replicate 120 CHR ''a'')" by simp
  have bad2: "upsert_fails env_upsert_down
                (url_split_text env_upsert_down (replicate 120 CHR ''a''))"
    by (simp add: upsert_fails_def env_upsert_down_def)
  have n: "next_id empty_system = 1" by (simp add: empty_system_def)
  have f: "upload_filename report_pdf = ''Report.pdf''" by (simp add: report_pdf_def)
  note t = upsert_failure_outcomes [of report_pdf env_upsert_down
      "[''--Page 1 --Hello wor'', ''ld --Page 2 --Second page'']" empty_system
      "replicate 120 CHR ''a''" "''%PDF''" blog_post]
  from t pdf init chunks bad
  have u: "(\<exists>detail. fst (upload_pdf env_upsert_down empty_system report_pdf)
              = Inl (HTTPException 500 detail))
      \<and> documents (snd (upload_pdf env_upsert_down empty_system report_pdf)) 1 = None
      \<and> stored_path env_upsert_down ''Report.pdf''
           \<notin> files (snd (upload_pdf env_upsert_down empty_system report_pdf))"
    unfolding n f by blast
  from t r long init bad2
  have v: "\<exists>resp s'. url_to_pdf env_upsert_down empty_system blog_post = (Inr resp, s')
         \<and> resp_vectorization_status resp = ''failed''"
    by blast
  from pdf init chunks bad u r bad2 v show ?thesis by blast
qed

text \<open>
  The claim as stated fails on url\_to\_pdf: the upsert raises, the call returns its
  response, and the Document record and the blob are still there.
\<close>

theorem upsert_failure_outcomes_counterexample:
  "fst (url_to_pdf env_upsert_down empty_system blog_post)
     = Inr \<lparr>resp_id = 1, resp_filename = ''20240101_120000_u1_example_com_post.pdf'',
            resp_original_filename = ''example_com_post.pdf'', resp_file_size = 4,
            resp_content_type = ''application/pdf'',
            resp_created_at = ''2024-01-01 12:00:00'',
            resp_vectorization_status = ''failed'', resp_chunks_count = 0\<rparr>
   \<and> map_option vectorization_status
         (documents (snd (url_to_pdf env_upsert_down empty_system blog_post)) 1)
       = Some ''failed''
   \<and> ''uploads/pdfs/20240101_120000_u1_example_com_post.pdf''
       \<in> files (snd (url_to_pdf env_upsert_down empty_system blog_post))"
  by code_simp

section \<open>Extraction without enough text\<close>





section \<open>Successful ingestion\<close>

text \<open>
  C3, as the code has it. When initialisation, chunking and the upsert succeed, upload\_pdf
  and url\_to\_pdf set the Document to completed with chunks\_count the number of chunks, and
  the collection gains one point per chunk, in order, with the chunk's text, the
  Document's id and the chunk indices 0 up to the number of chunks. The chunk table of the
  relational store is left as it was: no DocumentChunk record is written.
\<close>

theorem ingestion_success:
  "(suffix ''.pdf'' (str_lower (upload_filename file)) \<and> init_succeeds env
      \<and> process_pdf_to_chunks env (upload_content file) = Inr chunks
      \<and> \<not> upsert_fails env chunks \<longrightarrow>
        (\<exists>resp s' doc new. upload_pdf env s file = (Inr resp, s')
           \<and> resp_id resp = next_id s
           \<and> resp_vectorization_status resp = ''completed''
           \<and> resp_chunks_count resp = length chunks
           \<and> documents s' (next_id s) = Some doc
           \<and> vectorization_status doc = ''completed'' \<and> chunks_count doc = length chunks
           \<and> points s' = points s @ new
           \<and> map point_text new = chunks
           \<and> map point_chunk_index new = [0..<length chunks]
           \<and> (\<forall>p \<in> set new. point_document_id p = next_id s)
           \<and> document_chunks s' = document_chunks s))
   \<and> (render env = Inr (True, txt, pdf_content) \<and> 100 < length txt \<and> init_succeeds env
      \<and> \<not> upsert_fails env (url_split_text env txt) \<longrightarrow>
        (\<exists>resp s' doc new. url_to_pdf env s req = (Inr resp, s')
           \<and> resp_id resp = next_id s
           \<and> resp_vectorization_status resp = ''completed''
           \<and> resp_chunks_count resp = length (url_split_text env txt)
           \<and> documents s' (next_id s) = Some doc
           \<and> vectorization_status doc = ''completed''
           \<and> chunks_count doc = length (url_split_text env txt)
           \<and> points s' = points s @ new
           \<and> map point_text new = url_split_text env txt
           \<and> map point_chunk_index new = [0..<length (url_split_text env txt)]
           \<and> (\<forall>p \<in> set new. point_document_id p = next_id s)
           \<and> document_chunks s' = document_chunks s))"
proof -
  have upload: "\<exists>resp s' doc new. upload_pdf env s file = (Inr resp, s')
           \<and> resp_id resp = next_id s
           \<and> resp_vectorization_status resp = ''completed''
           \<and> resp_chunks_count resp = length chunks
           \<and> documents s' (next_id s) = Some doc
           \<and> vectorization_status doc = ''completed'' \<and> chunks_count doc = length chunks
           \<and> points s' = points s @ new
           \<and> map point_text new = chunks
           \<and> map point_chunk_index new = [0..<length chunks]
           \<and> (\<forall>p \<in> set new. point_document_id p = next_id s)
           \<and> document_chunks s' = document_chunks s"
    if "suffix ''.pdf'' (str_lower (upload_filename file))" "init_succeeds env"
      "process_pdf_to_chunks env (upload_content file) = Inr chunks"
      "\<not> upsert_fails env chunks"
    using that by (rule upload_pdf_success)
  have url: "\<exists>resp s' doc new. url_to_pdf env s req = (Inr resp, s')
           \<and> resp_id resp = next_id s
           \<and> resp_vectorization_status resp = ''completed''
           \<and> resp_chunks_count resp = length (url_split_text env txt)
           \<and> documents s' (next_id s) = Some doc
           \<and> vectorization_status doc = ''completed''
           \<and> chunks_count doc = length (url_split_text env txt)
           \<and> points s' = points s @ new
           \<and> map point_text new = url_split_text env txt
           \<and> map point_chunk_index new = [0..<length (url_split_text env txt)]
           \<and> (\<forall>p \<in> set new. point_document_id p = next_id s)
           \<and> document_chunks s' = document_chunks s"
    if "render env = Inr (True, txt, pdf_content)" "100 < length txt" "init_succeeds env"
      "\<not> upsert_fails env (url_split_text env txt)"
    using that by (rule url_to_pdf_success)
  from upload url show ?thesis by blast
qed

theorem ingestion_success_witness:
  "suffix ''.pdf'' (str_lower (upload_filename report_pdf)) \<and> init_succeeds env_ok
   \<and> process_pdf_to_chunks env_ok (upload_content report_pdf)
       = Inr [''--Page 1 --Hello wor'', ''ld --Page 2 --Second page'']
   \<and> \<not> upsert_fails env_ok [''--Page 1 --Hello wor'', ''ld --Page 2 --Second page'']
   \<and> (\<exists>resp s' new. upload_pdf env_ok empty_system report_pdf = (Inr resp, s')
         \<and> resp_vectorization_status resp = ''completed'' \<and> resp_chunks_count resp = 2
         \<and> points s' = points empty_system @ new
         \<and> map point_chunk_index new = [0..<2]
         \<and> document_chunks s' = document_chunks empty_system)
   \<and> render env_ok = Inr (True, replicate 120 CHR ''a'', ''%PDF'')
   \<and> \<not> upsert_fails env_ok (url_split_text env_ok (replicate 120 CHR ''a''))
   \<and> (\<exists>resp s'. url_to_pdf env_ok empty_system blog_post = (Inr resp, s')
         \<and> resp_vectorization_status resp = ''completed'' \<and> resp_chunks_count resp = 1)"
proof -
  have pdf: "suffix ''.pdf'' (str_lower (upload_filename report_pdf))" by code_simp
  have init: "init_succeeds env_ok" by (simp add: init_succeeds_def env_ok_def)
  have chunks: "process_pdf_to_chunks env_ok (upload_content report_pdf)
       = Inr [''--Page 1 --Hello wor'', ''ld --Page 2 --Second page'']"
    by code_simp
  have ok: "\<not> upsert_fails env_ok [''--Page 1 --Hello wor'', ''ld --Page 2 --Second page'']"
    by (simp add: upsert_fails_def env_ok_def)
  have r: "render env_ok = Inr (True, replicate 120 CHR ''a'', ''%PDF'')"
    by (simp add: env_ok_def)
  have long: "100 < length (replicate 120 CHR ''a'')" by simp
  have ok2: "\<not> upsert_fails env_ok (url_split_text env_ok (replicate 120 CHR ''a''))"
    by (simp add: upsert_fails_def env_ok_def)
  have one: "length (url_split_text env_ok (replicate 120 CHR ''a'')) = 1"
    by (simp add: env_ok_def)
  note t = ingestion_success [of report_pdf env_ok
      "[''--Page 1 --Hello wor'', ''ld --Page 2 --Second page'']" empty_system
      "replicate 120 CHR ''a''" "''%PDF''" blog_post]
  have len2: "length [''--Page 1 --Hello wor'', ''ld --Page 2 --Second page''] = 2" by simp
  from t pdf init chunks ok
  have "\<exists>resp s' new. upload_pdf env_ok empty_system report_pdf = (Inr resp, s')
         \<and> resp_vectorization_status resp = ''completed''
         \<and> resp_chunks_count resp
             = length [''--Page 1 --Hello wor'', ''ld --Page 2 --Second page'']
         \<and> points s' = points empty_system @ new
         \<and> map point_chunk_index new
             = [0..<length [''--Page 1 --Hello wor'', ''ld --Page 2 --Second page'']]
         \<and> document_chunks s' = document_chunks empty_system"
    by blast
  then have a: "\<exists>resp s' new. upload_pdf env_ok empty_system report_pdf = (Inr resp, s')
         \<and> resp_vectorization_status resp = ''completed'' \<and> resp_chunks_count resp = 2
         \<and> points s' = points empty_system @ new
         \<and> map point_chunk_index new = [0..<2]
         \<and> document_chunks s' = document_chunks empty_system"
    unfolding len2 .
  from t r long init ok2
  have b: "\<exists>resp s'. url_to_pdf env_ok empty_system blog_post = (Inr resp, s')
         \<and> resp_vectorization_status resp = ''completed'' \<and> resp_chunks_count resp = 1"
    unfolding one by blast
  from pdf init chunks ok a r ok2 b show ?thesis by blast
qed

text \<open>
  The claim as stated fails: after a successful upload of two chunks the Document is
  completed with chunks\_count 2, and the chunk table of the relational store is empty.
\<close>

theorem ingestion_success_counterexample:
  "fst (upload_pdf env_ok empty_system report_pdf)
     = Inr \<lparr>resp_id = 1, resp_filename = ''20240101_120000_u1_Report.pdf'',
            resp_original_filename = ''Report.pdf'', resp_file_size = 4,
            resp_content_type = ''application/pdf'',
            resp_created_at = ''2024-01-01 12:00:00'',
            resp_vectorization_status = ''completed'', resp_chunks_count = 2\<rparr>
   \<and> document_chunks (snd (upload_pdf env_ok empty_system report_pdf)) = []
   \<and> map point_chunk_index (points (snd (upload_pdf env_ok empty_system report_pdf))) = [0, 1]"
  by code_simp

section \<open>Search when the backend is unavailable\<close>

text \<open>
  What search\_documents does with an unavailable backend. When a step of the
  initialisation fails, it ends in an HTTP 500 error with the detail "Vector search service
  unavailable". When the initialisation succeeds and the query itself fails, in the
  embedding of the query or in the search of the collection, QdrantVectorClient.search
  returns the empty list and search\_documents answers with no results and the message
  "No results found".
\<close>

lemma search_documents_outcomes:
  "(\<not> init_succeeds env \<longrightarrow>
      fst (search_documents env s query limit min_confidence)
        = Inl (HTTPException 500 ''Vector search service unavailable''))
   \<and> (init_succeeds env \<and> (encode_raises env query \<or> vector_query env limit = None) \<longrightarrow>
      fst (search_documents env s query limit min_confidence)
        = Inr \<lparr>resp_query = query, resp_results = [], resp_total_results = 0,
               resp_message = Some ''No results found''\<rparr>)"
proof -
  have down: "fst (search_documents env s query limit min_confidence)
        = Inl (HTTPException 500 ''Vector search service unavailable'')"
    if "\<not> init_succeeds env"
  proof -
    obtain ok s1 where i: "initialize_qdrant env s = (ok, s1)"
      by (cases "initialize_qdrant env s")
    with initialize_qdrant_fails [OF that, of s] have "\<not> ok" by simp
    with i show ?thesis by (simp add: search_documents_def)
  qed
  have quiet: "fst (search_documents env s query limit min_confidence)
        = Inr \<lparr>resp_query = query, resp_results = [], resp_total_results = 0,
               resp_message = Some ''No results found''\<rparr>"
    if init: "init_succeeds env" and q: "encode_raises env query \<or> vector_query env limit = None"
  proof -
    from q have "qdrant_search env (initialized s) query limit = []"
      by (auto simp: qdrant_search_def)
    then show ?thesis
      by (simp add: search_documents_def initialize_qdrant_ok [OF init])
  qed
  from down quiet show ?thesis by blast
qed

text \<open>The connection cannot be made.\<close>

definition env_connect_down :: environment where
  "env_connect_down = env_ok\<lparr>connect_raises := True\<rparr>"

text \<open>
  C4. The code at a backend that becomes unavailable after the initialisation: the
  initialisation succeeds, the search of the collection raises, and the caller receives
  an ordinary response with no results and the message "No results found". With the
  connection down from the start the same call ends in the error "Vector search service
  unavailable".
\<close>

theorem search_failure_reported_as_no_results:
  "fst (initialize_qdrant env_query_down empty_system) = True
   \<and> vector_query env_query_down 5 = None
   \<and> fst (search_documents env_query_down empty_system ''alpha'' 5 None)
       = Inr \<lparr>resp_query = ''alpha'', resp_results = [], resp_total_results = 0,
              resp_message = Some ''No results found''\<rparr>
   \<and> fst (search_documents env_connect_down empty_system ''alpha'' 5 None)
       = Inl (HTTPException 500 ''Vector search service unavailable'')"
  by code_simp


end
